theory Spec2Isabelle
  imports Main "HOL-Library.AList"
begin

section \<open>Strings of the platform\<close>

text \<open>
  A JavaScript string is modelled as a \<open>string\<close>, a list of 8-bit characters. The
  line terminators of the regular-expression engine (LF, CR, U+2028, U+2029) that exist
  in this character type are LF and CR.
\<close>

definition startsWith :: "string \<Rightarrow> string \<Rightarrow> bool" where
  "startsWith s p = (take (length p) s = p)"

definition endsWith :: "string \<Rightarrow> string \<Rightarrow> bool" where
  "endsWith s p = (length p \<le> length s \<and> drop (length s - length p) s = p)"

definition is_line_terminator :: "char \<Rightarrow> bool" where
  "is_line_terminator c = (c = CHR 0x0A \<or> c = CHR 0x0D)"

definition line_run :: "string \<Rightarrow> string" where
  \<comment> \<open>what \<open>.*\<close> consumes: the longest prefix free of line terminators\<close>
  "line_run s = takeWhile (\<lambda>c. \<not> is_line_terminator c) s"

definition after_run :: "string \<Rightarrow> string" where
  "after_run s = dropWhile (\<lambda>c. \<not> is_line_terminator c) s"

text \<open>
  \<open>content.replace(re, f)\<close> for a global multi-line pattern of the shape \<open>^body$\<close>
  whose body matches no line terminator and no empty string. The engine tries each
  position from left to right. \<open>^\<close> holds at the start of the input and after a line
  terminator (\<open>bol\<close>); \<open>$\<close> holds at the end of the input and before a line terminator,
  so a match is the whole run up to the next terminator, accepted when \<open>p\<close> holds of it.
  A match is replaced by \<open>f\<close> of it and the scan resumes behind it; at a position with
  no match the character is copied.
\<close>

function replace_anchored :: "(string \<Rightarrow> bool) \<Rightarrow> (string \<Rightarrow> string) \<Rightarrow> bool \<Rightarrow> string \<Rightarrow> string" where
  "replace_anchored p f bol [] = []"
| "replace_anchored p f bol (c # cs) =
     (if bol \<and> line_run (c # cs) \<noteq> [] \<and> p (line_run (c # cs))
      then f (line_run (c # cs)) @ replace_anchored p f False (after_run (c # cs))
      else c # replace_anchored p f (is_line_terminator c) cs)"
  by pat_completeness auto
termination
proof (relation "measure (\<lambda>(p, f, bol, s). length s)")
  show "wf (measure (\<lambda>(p, f, bol, s). length s))" by simp
next
  fix p :: "string \<Rightarrow> bool" and f :: "string \<Rightarrow> string" and bol :: bool
    and c :: char and cs :: string
  assume "bol \<and> line_run (c # cs) \<noteq> [] \<and> p (line_run (c # cs))"
  then have "\<not> is_line_terminator c"
    by (auto simp: line_run_def split: if_splits)
  then have "length (after_run (c # cs)) \<le> length cs"
    by (simp add: after_run_def length_dropWhile_le)
  then show "((p, f, False, after_run (c # cs)), (p, f, bol, c # cs))
      \<in> measure (\<lambda>(p, f, bol, s). length s)"
    by simp
next
  fix p :: "string \<Rightarrow> bool" and f :: "string \<Rightarrow> string" and bol :: bool
    and c :: char and cs :: string
  show "((p, f, is_line_terminator c, cs), (p, f, bol, c # cs))
      \<in> measure (\<lambda>(p, f, bol, s). length s)"
    by simp
qed

section \<open>Manifest rewriting, direct mode\<close>

definition https_line :: "string \<Rightarrow> bool" where
  \<comment> \<open>the body of \<open>/(^https:\/\/.*$)/gm\<close>\<close>
  "https_line m = startsWith m ''https://''"

definition direct_replacer :: "string \<Rightarrow> string" where
  "direct_replacer m = (if \<not> startsWith m ''#'' then ''/proxy-stream/'' @ m else m)"

definition rewriteM3u8ContentDirect :: "string \<Rightarrow> string" where
  "rewriteM3u8ContentDirect content = replace_anchored https_line direct_replacer True content"


section \<open>URLs\<close>

text \<open>
  The fields of the platform's \<open>URL\<close> object that the program reads. The constructor
  \<open>new URL(s)\<close> belongs to the platform, not to the program, so the program's functions
  take it as a parameter: \<open>Inl msg\<close> is the \<open>TypeError\<close> it throws, with its message.
\<close>

record url =
  protocol :: string
  host :: string
  hostname :: string
  pathname :: string
  search :: string

type_synonym url_parser = "string \<Rightarrow> string + url"

text \<open>
  A reference parser for plain \<open>http(s)://authority/path?query#fragment\<close> strings, used
  where a statement needs a concrete parser. It does none of the platform's
  normalisation (case folding, default ports, dot segments, percent-encoding, user info).
\<close>

definition parseURL :: url_parser where
  "parseURL s =
     (let scheme = takeWhile (\<lambda>c. c \<noteq> CHR '':'') s;
          rest = dropWhile (\<lambda>c. c \<noteq> CHR '':'') s;
          r1 = drop 3 rest;
          auth = takeWhile (\<lambda>c. c \<notin> set ''/?#'') r1;
          r2 = dropWhile (\<lambda>c. c \<notin> set ''/?#'') r1;
          path = takeWhile (\<lambda>c. c \<notin> set ''?#'') r2;
          r3 = dropWhile (\<lambda>c. c \<notin> set ''?#'') r2;
          query = takeWhile (\<lambda>c. c \<noteq> CHR ''#'') r3
      in if (scheme = ''https'' \<or> scheme = ''http'') \<and> startsWith rest ''://'' \<and> auth \<noteq> []
         then Inr \<lparr>protocol = scheme @ '':'', host = auth,
                   hostname = takeWhile (\<lambda>c. c \<noteq> CHR '':'') auth,
                   pathname = (if path = [] then ''/'' else path),
                   search = (if query = ''?'' then [] else query)\<rparr>
         else Inl ''Invalid URL'')"

fun split_on :: "char \<Rightarrow> string \<Rightarrow> string list" where
  "split_on d [] = [[]]"
| "split_on d (c # cs) =
     (if c = d then [] # split_on d cs
      else (case split_on d cs of [] \<Rightarrow> [[c]] | x # xs \<Rightarrow> (c # x) # xs))"

fun join_with :: "string \<Rightarrow> string list \<Rightarrow> string" where
  "join_with d [] = []"
| "join_with d [x] = x"
| "join_with d (x # y # ys) = x @ d @ join_with d (y # ys)"

section \<open>Manifest rewriting, context-aware mode\<close>

definition base_url :: "url_parser \<Rightarrow> string \<Rightarrow> string" where
  \<comment> \<open>\<open>baseUrl\<close>: it stays empty when the constructor throws; \<open>pop\<close> drops the last part\<close>
  "base_url parse originalUrl =
     (case parse originalUrl of
        Inl e \<Rightarrow> []
      | Inr urlObj \<Rightarrow>
          protocol urlObj @ ''//'' @ host urlObj
            @ join_with ''/'' (butlast (split_on CHR ''/'' (pathname urlObj))) @ ''/'')"

definition dot_plus :: "string \<Rightarrow> string \<Rightarrow> bool" where
  \<comment> \<open>the whole run matches \<open>.+\<close> followed by the literal \<open>ext\<close>\<close>
  "dot_plus ext m = (length ext < length m \<and> endsWith m ext)"

definition media_line :: "string \<Rightarrow> bool" where
  \<comment> \<open>the body of \<open>/^((?!#).+\.ts|.+\.m3u8|.+\.jpg|.+\.html)$/gm\<close>: the lookahead
      belongs to the first alternative only\<close>
  "media_line m =
     ((\<not> startsWith m ''#'' \<and> dot_plus ''.ts'' m) \<or> dot_plus ''.m3u8'' m
        \<or> dot_plus ''.jpg'' m \<or> dot_plus ''.html'' m)"

definition context_replacer :: "url_parser \<Rightarrow> string \<Rightarrow> string \<Rightarrow> string \<Rightarrow> string" where
  "context_replacer parse originalUrl baseUrl m =
     (if startsWith m ''http'' then ''/proxy-stream/'' @ m
      else if startsWith m ''/'' then
        (case parse originalUrl of
           Inl e \<Rightarrow> m
         | Inr urlObj \<Rightarrow> ''/proxy-stream/'' @ protocol urlObj @ ''//'' @ host urlObj @ m)
      else ''/proxy-stream/'' @ baseUrl @ m)"

definition rewriteM3u8Content :: "url_parser \<Rightarrow> string \<Rightarrow> string \<Rightarrow> string" where
  "rewriteM3u8Content parse content originalUrl =
     replace_anchored media_line
       (context_replacer parse originalUrl (base_url parse originalUrl)) True content"

section \<open>Lines of a manifest\<close>

text \<open>
  The lines of a text, each with the terminator that ends it (empty for the last line).
  Every terminator character ends a line, as for the \<open>^\<close> and \<open>$\<close> of the engine.
\<close>

fun split_lines :: "string \<Rightarrow> (string \<times> string) list" where
  "split_lines [] = [([], [])]"
| "split_lines (c # cs) =
     (if is_line_terminator c then ([], [c]) # split_lines cs
      else (case split_lines cs of
              [] \<Rightarrow> [([c], [])]
            | (l, t) # rest \<Rightarrow> (c # l, t) # rest))"

text \<open>
  The per-line reading of a rewrite: \<open>map_lines g\<close> applies \<open>g\<close> to every line and keeps
  the terminators; \<open>prefix_https_line\<close> is the line function that direct mode is
  compared with.
\<close>

definition map_lines :: "(string \<Rightarrow> string) \<Rightarrow> string \<Rightarrow> string" where
  "map_lines g content = concat (map (\<lambda>(l, t). g l @ t) (split_lines content))"

definition prefix_https_line :: "string \<Rightarrow> string" where
  "prefix_https_line l = (if startsWith l ''https://'' then ''/proxy-stream/'' @ l else l)"

definition line_free :: "string \<Rightarrow> bool" where
  "line_free l = (filter is_line_terminator l = [])"

definition ends_line :: "string \<Rightarrow> bool" where
  \<comment> \<open>a text after which a new line starts\<close>
  "ends_line pre = (case rev pre of [] \<Rightarrow> True | c # cs \<Rightarrow> is_line_terminator c)"

definition starts_break :: "string \<Rightarrow> bool" where
  \<comment> \<open>a text before which a line ends\<close>
  "starts_break post = (case post of [] \<Rightarrow> True | c # cs \<Rightarrow> is_line_terminator c)"


section \<open>The segment cache\<close>

text \<open>
  \<open>tsCache = new NodeCache({ stdTTL: 600, checkperiod: 120 })\<close>: the entries of the
  library's store, each with the time (in milliseconds) at which it expires. \<open>get\<close>
  removes the entry it finds expired; the periodic check removes every expired entry.
  The hit and miss counters of the library are not part of the model.
\<close>

record cached =
  data :: string
  contentType :: "string option"

type_synonym cache = "(string \<times> cached \<times> nat) list"

definition stdTTL :: nat where
  "stdTTL = 600"

definition expired :: "nat \<Rightarrow> nat \<Rightarrow> bool" where
  "expired now t = (t \<noteq> 0 \<and> t < now)"

definition cache_get :: "nat \<Rightarrow> string \<Rightarrow> cache \<Rightarrow> cached option \<times> cache" where
  "cache_get now key c =
     (case map_of c key of
        None \<Rightarrow> (None, c)
      | Some (v, t) \<Rightarrow> if expired now t then (None, AList.delete key c) else (Some v, c))"

definition cache_set :: "nat \<Rightarrow> string \<Rightarrow> cached \<Rightarrow> cache \<Rightarrow> cache" where
  "cache_set now key v c = AList.update key (v, now + stdTTL * 1000) c"

definition cache_keys :: "cache \<Rightarrow> string list" where
  "cache_keys c = map fst c"

definition cache_flushAll :: "cache \<Rightarrow> cache" where
  "cache_flushAll c = []"

definition cache_check :: "nat \<Rightarrow> cache \<Rightarrow> cache" where
  "cache_check now c = filter (\<lambda>(k, v, t). \<not> expired now t) c"

definition cache_peek :: "nat \<Rightarrow> cache \<Rightarrow> string \<Rightarrow> cached option" where
  \<comment> \<open>what \<open>get\<close> would return\<close>
  "cache_peek now c key = fst (cache_get now key c)"

section \<open>Requests, upstream answers and replies\<close>

record upstream_response =
  status :: nat
  statusText :: string
  content_type :: "string option"
  body :: string

datatype fetch_result = FetchThrows string | Fetched upstream_response

datatype header_set = DirectHeaders | GatewayHeaders

text \<open>The upstream, as seen through \<open>fetch(url, { headers })\<close>.\<close>

type_synonym fetcher = "header_set \<Rightarrow> string \<Rightarrow> fetch_result"

datatype payload = JsonError string | JsonSuccess string | Sent string | Piped string

record reply =
  code :: nat
  header :: "string option"
  payload :: payload

text \<open>
  What a handler does: its reply (\<open>header\<close> is the \<open>Content-Type\<close> given to
  \<open>res.setHeader\<close>, if any), the cache it leaves, and the URLs it passed to \<open>fetch\<close>.
  A request is one step at one time \<open>now\<close>: other requests that run while this one
  awaits the upstream are not interleaved with it, and the upstream body is taken as
  read in full.
\<close>

record outcome =
  reply :: reply
  store :: cache
  fetched :: "string list"

definition digit :: "nat \<Rightarrow> char" where
  \<comment> \<open>only applied to \<open>d < 10\<close>\<close>
  "digit d = ''0123456789'' ! d"

function decimal :: "nat \<Rightarrow> string" where
  "decimal n = (if n < 10 then [digit n] else decimal (n div 10) @ [digit (n mod 10)])"
  by pat_completeness auto
termination
  by (relation "measure (\<lambda>n. n)") auto

declare decimal.simps [simp del]

definition ok :: "upstream_response \<Rightarrow> bool" where
  "ok r = (200 \<le> status r \<and> status r \<le> 299)"

definition truthy :: "string option \<Rightarrow> string option" where
  \<comment> \<open>\<open>if (contentType) res.setHeader('Content-Type', contentType)\<close>\<close>
  "truthy ct = (case ct of None \<Rightarrow> None | Some s \<Rightarrow> if s = [] then None else Some s)"

definition cacheable :: "string \<Rightarrow> bool" where
  "cacheable u = (endsWith u ''.jpg'' \<or> endsWith u ''.html'' \<or> endsWith u ''.ts'')"

definition json_error :: "nat \<Rightarrow> string \<Rightarrow> reply" where
  "json_error st msg = \<lparr>code = st, header = None, payload = JsonError msg\<rparr>"

definition proxy_failure :: "string \<Rightarrow> reply" where
  \<comment> \<open>the \<open>catch\<close> of both proxy handlers\<close>
  "proxy_failure msg = json_error 500 (''Failed to proxy stream: '' @ msg)"

section \<open>The handlers\<close>

text \<open>
  \<open>req.body.token\<close> is whatever the JSON body holds under \<open>token\<close>;
  \<open>process.env.ADMIN_TOKEN\<close> is a string or \<open>undefined\<close> (\<open>None\<close>). \<open>===\<close> between
  the two holds when both are \<open>undefined\<close> or both are the same string.
\<close>

datatype jsvalue =
    UndefinedV
  | StringV string
  | OtherV  \<comment> \<open>\<open>null\<close>, a number, a boolean, an array or an object\<close>

definition strict_eq :: "jsvalue \<Rightarrow> string option \<Rightarrow> bool" where
  "strict_eq v e = (case v of UndefinedV \<Rightarrow> e = None | StringV s \<Rightarrow> e = Some s | OtherV \<Rightarrow> False)"

definition clear_cache :: "string option \<Rightarrow> jsvalue \<Rightarrow> cache \<Rightarrow> outcome" where
  \<comment> \<open>\<open>admin\<close> is \<open>process.env.ADMIN_TOKEN\<close>\<close>
  "clear_cache admin token c =
     (if \<not> strict_eq token admin \<and> \<not> strict_eq token (Some ''admin-token'')
      then \<lparr>reply = json_error 403 ''Unauthorized'', store = c, fetched = []\<rparr>
      else let keysCount = length (cache_keys c) in
        \<lparr>reply = \<lparr>code = 200, header = None,
                   payload = JsonSuccess (''Cache cleared. '' @ decimal keysCount
                                            @ '' TS segments removed.'')\<rparr>,
         store = cache_flushAll c, fetched = []\<rparr>)"

text \<open>
  The part that both proxy handlers share after a cache miss: \<open>url\<close> is the route
  parameter (\<open>streamUrl\<close>, \<open>originalUrl\<close>), \<open>target\<close> is what is fetched.
\<close>

definition fetch_and_serve :: "fetcher \<Rightarrow> header_set \<Rightarrow> nat \<Rightarrow> cache \<Rightarrow> string \<Rightarrow> string \<Rightarrow> outcome" where
  "fetch_and_serve fetch hs now c url target =
     (case fetch hs target of
        FetchThrows msg \<Rightarrow> \<lparr>reply = proxy_failure msg, store = c, fetched = [target]\<rparr>
      | Fetched response \<Rightarrow>
          if \<not> ok response
          then \<lparr>reply = proxy_failure (''Failed to fetch: '' @ decimal (status response)
                                          @ '' '' @ statusText response),
                store = c, fetched = [target]\<rparr>
          else if endsWith url ''m3u8''
          then \<lparr>reply = \<lparr>code = 200, header = truthy (content_type response),
                          payload = Sent (rewriteM3u8ContentDirect (body response))\<rparr>,
                store = c, fetched = [target]\<rparr>
          else if cacheable url
          then \<lparr>reply = \<lparr>code = 200, header = truthy (content_type response),
                          payload = Sent (body response)\<rparr>,
                store = cache_set now url
                          \<lparr>data = body response, contentType = content_type response\<rparr> c,
                fetched = [target]\<rparr>
          else \<lparr>reply = \<lparr>code = 200, header = truthy (content_type response),
                          payload = Piped (body response)\<rparr>,
                store = c, fetched = [target]\<rparr>)"

definition cached_or_fetch :: "fetcher \<Rightarrow> header_set \<Rightarrow> nat \<Rightarrow> cache \<Rightarrow> string \<Rightarrow> string \<Rightarrow> outcome" where
  "cached_or_fetch fetch hs now c url target =
     (if cacheable url then
        (case cache_get now url c of
           (Some hit, c') \<Rightarrow>
             \<lparr>reply = \<lparr>code = 200, header = truthy (contentType hit), payload = Sent (data hit)\<rparr>,
              store = c', fetched = []\<rparr>
         | (None, c') \<Rightarrow> fetch_and_serve fetch hs now c' url target)
      else fetch_and_serve fetch hs now c url target)"

definition proxy_stream :: "fetcher \<Rightarrow> nat \<Rightarrow> cache \<Rightarrow> string \<Rightarrow> outcome" where
  "proxy_stream fetch now c streamUrl =
     (if streamUrl = []
      then \<lparr>reply = json_error 400 ''Stream URL is required'', store = c, fetched = []\<rparr>
      else cached_or_fetch fetch DirectHeaders now c streamUrl streamUrl)"

definition viper_transform :: "url_parser \<Rightarrow> string \<Rightarrow> string + string" where
  "viper_transform parse originalUrl =
     (case parse originalUrl of
        Inl msg \<Rightarrow> Inl msg
      | Inr urlObj \<Rightarrow>
          Inr (''https://embed.su/api/proxy/viper/''
                 @ hostname urlObj @ pathname urlObj @ search urlObj))"

definition viper_proxy :: "url_parser \<Rightarrow> fetcher \<Rightarrow> nat \<Rightarrow> cache \<Rightarrow> string \<Rightarrow> outcome" where
  "viper_proxy parse fetch now c originalUrl =
     (if originalUrl = []
      then \<lparr>reply = json_error 400 ''Stream URL is required'', store = c, fetched = []\<rparr>
      else
        (case viper_transform parse originalUrl of
           Inl msg \<Rightarrow>
             \<lparr>reply = json_error 400 (''Invalid URL format: '' @ msg), store = c, fetched = []\<rparr>
         | Inr transformedUrl \<Rightarrow>
             cached_or_fetch fetch GatewayHeaders now c originalUrl transformedUrl))"

section \<open>The server over time\<close>

datatype request =
    ProxyStream string
  | ViperProxy string
  | ClearCache jsvalue
  | Check

text \<open>
  One event at time \<open>now\<close>: a request, or the periodic check of the cache. The upstream
  may answer differently at different times.
\<close>

fun handle :: "url_parser \<Rightarrow> (nat \<Rightarrow> fetcher) \<Rightarrow> string option \<Rightarrow> cache \<Rightarrow> nat \<times> request \<Rightarrow> cache" where
  "handle parse world admin c (now, ProxyStream u) = store (proxy_stream (world now) now c u)"
| "handle parse world admin c (now, ViperProxy u) = store (viper_proxy parse (world now) now c u)"
| "handle parse world admin c (now, ClearCache token) = store (clear_cache admin token c)"
| "handle parse world admin c (now, Check) = cache_check now c"

definition run :: "url_parser \<Rightarrow> (nat \<Rightarrow> fetcher) \<Rightarrow> string option \<Rightarrow> (nat \<times> request) list \<Rightarrow> cache" where
  "run parse world admin events = foldl (handle parse world admin) [] events"


section \<open>Sample upstreams and caches\<close>

text \<open>Concrete upstream behaviours and cache contents for the instances stated below.\<close>

definition upstream_404 :: fetcher where
  "upstream_404 hs u =
     Fetched \<lparr>status = 404, statusText = ''Not Found'', content_type = None, body = []\<rparr>"

definition upstream_segment :: fetcher where
  "upstream_segment hs u =
     Fetched \<lparr>status = 200, statusText = ''OK'', content_type = Some ''video/mp2t'',
              body = ''DATA''\<rparr>"

definition upstream_manifest :: fetcher where
  "upstream_manifest hs u =
     Fetched \<lparr>status = 200, statusText = ''OK'',
              content_type = Some ''application/vnd.apple.mpegurl'',
              body = ''#EXTM3U\<newline>https://cdn.example/a.ts\<newline>#EXT-X-ENDLIST''\<rparr>"

definition upstream_refuses :: fetcher where
  \<comment> \<open>\<open>fetch\<close> rejects a string that is not an absolute URL\<close>
  "upstream_refuses hs u = FetchThrows ''Only absolute URLs are supported''"

definition one_segment :: cache where
  "one_segment =
     [(''https://cdn.example/a.ts'', \<lparr>data = ''DATA'', contentType = Some ''video/mp2t''\<rparr>, 600000)]"

definition steady :: "fetcher \<Rightarrow> nat \<Rightarrow> fetcher" where
  \<comment> \<open>an upstream that behaves the same at all times\<close>
  "steady f now = f"

section \<open>Replacement works line by line\<close>


lemma line_run_Cons:
  "line_run (c # cs) = (if is_line_terminator c then [] else c # line_run cs)"
  by (simp add: line_run_def)

lemma after_run_Cons:
  "after_run (c # cs) = (if is_line_terminator c then c # cs else after_run cs)"
  by (simp add: after_run_def)

lemma line_run_Nil: "line_run [] = []"
  by (simp add: line_run_def)

lemma after_run_Nil: "after_run [] = []"
  by (simp add: after_run_def)

lemma after_run_starts: "after_run s = t # r \<Longrightarrow> is_line_terminator t"
  unfolding after_run_def using hd_dropWhile [of "\<lambda>c. \<not> is_line_terminator c" s] by auto

lemma after_run_length: "length (after_run s) \<le> length s"
  by (simp add: after_run_def length_dropWhile_le)

lemma run_then_rest: "line_run s @ after_run s = s"
  by (simp add: line_run_def after_run_def)

lemma replace_anchored_mid:
  "replace_anchored p f False s =
     line_run s @ (case after_run s of [] \<Rightarrow> [] | t # r \<Rightarrow> t # replace_anchored p f True r)"
  by (induction s) (simp_all add: line_run_Cons after_run_Cons line_run_Nil after_run_Nil)

lemma replace_anchored_start:
  "replace_anchored p f True s =
     (if line_run s \<noteq> [] \<and> p (line_run s) then f (line_run s) else line_run s)
       @ (case after_run s of [] \<Rightarrow> [] | t # r \<Rightarrow> t # replace_anchored p f True r)"
proof (cases s)
  case Nil
  then show ?thesis by (simp add: line_run_Nil after_run_Nil)
next
  case (Cons c cs)
  show ?thesis
  proof (cases "line_run s \<noteq> [] \<and> p (line_run s)")
    case True
    have "replace_anchored p f False (after_run s)
            = (case after_run s of [] \<Rightarrow> [] | t # r \<Rightarrow> t # replace_anchored p f True r)"
    proof (cases "after_run s")
      case Nil
      then show ?thesis by simp
    next
      case (Cons t r)
      then have "is_line_terminator t" by (rule after_run_starts)
      with Cons show ?thesis by simp
    qed
    with True Cons show ?thesis by simp
  next
    case False
    with Cons show ?thesis
      by (auto simp add: replace_anchored_mid [of p f cs] line_run_Cons after_run_Cons
            split: if_splits)
  qed
qed

lemma split_lines_unfold:
  "split_lines s =
     (line_run s, take 1 (after_run s))
       # (case after_run s of [] \<Rightarrow> [] | t # r \<Rightarrow> split_lines r)"
  by (induction s) (simp_all add: line_run_Cons after_run_Cons line_run_Nil after_run_Nil)

lemma map_lines_unfold:
  "map_lines g s =
     g (line_run s) @ (case after_run s of [] \<Rightarrow> [] | t # r \<Rightarrow> t # map_lines g r)"
proof -
  have "map_lines g s = concat (map (\<lambda>(l, t). g l @ t) (split_lines s))"
    by (simp add: map_lines_def)
  also have "\<dots> = g (line_run s) @ (case after_run s of [] \<Rightarrow> [] | t # r \<Rightarrow> t # map_lines g r)"
    by (subst split_lines_unfold) (simp add: map_lines_def split: list.splits)
  finally show ?thesis .
qed

lemma replace_anchored_lines:
  "replace_anchored p f True s = map_lines (\<lambda>l. if l \<noteq> [] \<and> p l then f l else l) s"
proof (induction s rule: length_induct)
  case (1 s)
  show ?case
  proof (cases "after_run s")
    case Nil
    then show ?thesis
      by (subst replace_anchored_start, subst map_lines_unfold) simp
  next
    case (Cons t r)
    have "length r < length s"
      using after_run_length [of s] Cons by simp
    with 1 have "replace_anchored p f True r = map_lines (\<lambda>l. if l \<noteq> [] \<and> p l then f l else l) r"
      by blast
    with Cons show ?thesis
      by (subst replace_anchored_start, subst map_lines_unfold) simp
  qed
qed

lemma direct_replacer_https: "https_line m \<Longrightarrow> direct_replacer m = ''/proxy-stream/'' @ m"
  by (cases m) (auto simp: https_line_def direct_replacer_def startsWith_def)

lemma direct_line: "(if l \<noteq> [] \<and> https_line l then direct_replacer l else l) = prefix_https_line l"
  by (auto simp: direct_replacer_https prefix_https_line_def https_line_def startsWith_def)

lemma replace_anchored_unfold:
  "replace_anchored p f b s =
     (if b \<and> line_run s \<noteq> [] \<and> p (line_run s) then f (line_run s) else line_run s)
       @ (case after_run s of [] \<Rightarrow> [] | t # r \<Rightarrow> t # replace_anchored p f True r)"
  by (cases b) (simp_all add: replace_anchored_start [symmetric] replace_anchored_mid [symmetric])

lemma runs_with_break:
  assumes "c \<in> set pre" and "is_line_terminator c"
  shows "line_run (pre @ s) = line_run pre" and "after_run (pre @ s) = after_run pre @ s"
  using assms unfolding line_run_def after_run_def
  by (simp_all add: takeWhile_append1 dropWhile_append1)

lemma replace_anchored_append:
  "pre \<noteq> [] \<Longrightarrow> is_line_terminator (last pre) \<Longrightarrow>
     replace_anchored p f b (pre @ s) = replace_anchored p f b pre @ replace_anchored p f True s"
proof (induction pre arbitrary: b rule: length_induct)
  case (1 pre)
  from 1(2,3) have brk: "last pre \<in> set pre" "is_line_terminator (last pre)"
    by simp_all
  have run: "line_run (pre @ s) = line_run pre" and rest: "after_run (pre @ s) = after_run pre @ s"
    using runs_with_break [OF brk] by simp_all
  have "after_run pre \<noteq> []"
    using brk by (auto simp: after_run_def dropWhile_eq_Nil_conv)
  then obtain t r where tr: "after_run pre = t # r"
    by (cases "after_run pre") auto
  have tail: "replace_anchored p f True (r @ s) = replace_anchored p f True r @ replace_anchored p f True s"
  proof (cases "r = []")
    case True
    then show ?thesis by simp
  next
    case False
    have "pre = line_run pre @ t # r"
      using run_then_rest [of pre] tr by simp
    then have "last pre = last (line_run pre @ t # r)" by simp
    with False have "last r = last pre" by simp
    moreover have "length r < length pre"
      using after_run_length [of pre] tr by simp
    ultimately show ?thesis
      using 1(1) False brk(2) by simp
  qed
  show ?case
    by (subst replace_anchored_unfold [of p f b "pre @ s"],
        subst replace_anchored_unfold [of p f b pre]) (simp add: run rest tr tail)
qed

lemma line_free_Cons: "line_free (c # l) = (\<not> is_line_terminator c \<and> line_free l)"
  by (simp add: line_free_def)

lemma runs_of_line:
  "line_free l \<Longrightarrow> starts_break post \<Longrightarrow> line_run (l @ post) = l \<and> after_run (l @ post) = post"
proof (induction l)
  case Nil
  then show ?case
    by (cases post) (simp_all add: starts_break_def line_run_Cons after_run_Cons line_run_Nil after_run_Nil)
next
  case (Cons c l)
  then show ?case by (simp add: line_free_Cons line_run_Cons after_run_Cons)
qed

lemma replace_anchored_line:
  assumes "line_free l" and "starts_break post" and "l \<noteq> []" and "p l"
  shows "replace_anchored p f True (l @ post) = f l @ replace_anchored p f True post"
proof -
  have r: "line_run (l @ post) = l" "after_run (l @ post) = post"
    using runs_of_line [OF assms(1,2)] by simp_all
  have b: "line_run post = []" "after_run post = post"
    using runs_of_line [of "[]" post] assms(2) by (simp_all add: line_free_def)
  show ?thesis
    by (subst replace_anchored_unfold [of p f True "l @ post"],
        subst replace_anchored_unfold [of p f True post]) (simp add: r b assms)
qed

lemma direct_rewrites_line:
  assumes "ends_line pre" and "starts_break post" and "line_free l" and "startsWith l ''https://''"
  shows "rewriteM3u8ContentDirect (pre @ l @ post)
           = rewriteM3u8ContentDirect pre @ ''/proxy-stream/'' @ l @ rewriteM3u8ContentDirect post"
proof -
  from assms(4) have ne: "l \<noteq> []" and h: "https_line l"
    by (auto simp: startsWith_def https_line_def)
  have mid: "replace_anchored https_line direct_replacer True (l @ post)
               = (''/proxy-stream/'' @ l) @ replace_anchored https_line direct_replacer True post"
    using replace_anchored_line [OF assms(3,2) ne, of https_line direct_replacer] h
    by (simp add: direct_replacer_https)
  show ?thesis
  proof (cases "pre = []")
    case True
    with mid show ?thesis by (simp add: rewriteM3u8ContentDirect_def)
  next
    case False
    with assms(1) have "is_line_terminator (last pre)"
      by (cases "rev pre") (auto simp: ends_line_def last_rev [symmetric])
    with False mid show ?thesis
      by (simp add: rewriteM3u8ContentDirect_def replace_anchored_append)
  qed
qed

section \<open>Direct mode\<close>

text \<open>
  C10. The direct-mode rewriter is the per-line function that puts \<open>/proxy-stream/\<close> in
  front of exactly the lines that begin with \<open>https://\<close> and leaves every other line, and
  every line terminator, as it is. The test for a leading \<open>#\<close> inside the replacer is
  never decisive: replacing it by the unconditional prefixing gives the same function.
\<close>

theorem direct_is_per_line:
  "rewriteM3u8ContentDirect content = map_lines prefix_https_line content
   \<and> rewriteM3u8ContentDirect content
       = replace_anchored https_line (\<lambda>m. ''/proxy-stream/'' @ m) True content"
proof -
  have a: "(\<lambda>l. if l \<noteq> [] \<and> https_line l then direct_replacer l else l) = prefix_https_line"
    by (rule ext) (rule direct_line)
  have b: "(\<lambda>l. if l \<noteq> [] \<and> https_line l then ''/proxy-stream/'' @ l else l) = prefix_https_line"
    by (rule ext) (auto simp: prefix_https_line_def https_line_def startsWith_def)
  have "rewriteM3u8ContentDirect content = map_lines prefix_https_line content"
    unfolding rewriteM3u8ContentDirect_def replace_anchored_lines a ..
  moreover have "replace_anchored https_line (\<lambda>m. ''/proxy-stream/'' @ m) True content
      = map_lines prefix_https_line content"
    unfolding replace_anchored_lines b ..
  ultimately show ?thesis by simp
qed

text \<open>
  C4 (as amended). In direct mode a line that begins with \<open>https://\<close> is replaced by
  \<open>/proxy-stream/\<close> followed by the line, whatever precedes and follows it; the manifest
  \<open>#EXTM3U\<close>, \<open>https://cdn.example/a.ts\<close>, \<open>#EXT-X-ENDLIST\<close> is rewritten as the
  scenario says.
\<close>

theorem direct_rewrites_https_lines:
  "(ends_line pre \<and> starts_break post \<and> line_free l \<and> startsWith l ''https://'' \<longrightarrow>
      rewriteM3u8ContentDirect (pre @ l @ post)
        = rewriteM3u8ContentDirect pre @ ''/proxy-stream/'' @ l @ rewriteM3u8ContentDirect post)
   \<and> rewriteM3u8ContentDirect ''#EXTM3U\<newline>https://cdn.example/a.ts\<newline>#EXT-X-ENDLIST''
       = ''#EXTM3U\<newline>/proxy-stream/https://cdn.example/a.ts\<newline>#EXT-X-ENDLIST''"
proof
  show "ends_line pre \<and> starts_break post \<and> line_free l \<and> startsWith l ''https://'' \<longrightarrow>
      rewriteM3u8ContentDirect (pre @ l @ post)
        = rewriteM3u8ContentDirect pre @ ''/proxy-stream/'' @ l @ rewriteM3u8ContentDirect post"
    using direct_rewrites_line by blast
next
  show "rewriteM3u8ContentDirect ''#EXTM3U\<newline>https://cdn.example/a.ts\<newline>#EXT-X-ENDLIST''
       = ''#EXTM3U\<newline>/proxy-stream/https://cdn.example/a.ts\<newline>#EXT-X-ENDLIST''"
    by (simp add: rewriteM3u8ContentDirect_def https_line_def direct_replacer_def startsWith_def
          line_run_def after_run_def is_line_terminator_def)
qed

theorem direct_rewrites_https_lines_witness:
  "ends_line ''#EXTM3U\<newline>'' \<and> starts_break ''\<newline>#EXT-X-ENDLIST''
   \<and> line_free ''https://cdn.example/a.ts'' \<and> startsWith ''https://cdn.example/a.ts'' ''https://''
   \<and> rewriteM3u8ContentDirect (''#EXTM3U\<newline>'' @ ''https://cdn.example/a.ts'' @ ''\<newline>#EXT-X-ENDLIST'')
       = rewriteM3u8ContentDirect ''#EXTM3U\<newline>'' @ ''/proxy-stream/'' @ ''https://cdn.example/a.ts''
           @ rewriteM3u8ContentDirect ''\<newline>#EXT-X-ENDLIST''"
proof -
  have h: "ends_line ''#EXTM3U\<newline>'' \<and> starts_break ''\<newline>#EXT-X-ENDLIST''
      \<and> line_free ''https://cdn.example/a.ts'' \<and> startsWith ''https://cdn.example/a.ts'' ''https://''"
    by (simp add: ends_line_def starts_break_def line_free_def startsWith_def is_line_terminator_def)
  from direct_rewrites_https_lines
    [of "''#EXTM3U\<newline>''" "''\<newline>#EXT-X-ENDLIST''" "''https://cdn.example/a.ts''"] h
  show ?thesis by blast
qed

text \<open>
  C4 as stated fails: a line that is an absolute URL with the scheme \<open>http\<close> is not
  replaced.
\<close>

theorem direct_keeps_http_line:
  "rewriteM3u8ContentDirect ''http://cdn.example/a.ts'' = ''http://cdn.example/a.ts''
   \<and> rewriteM3u8ContentDirect ''http://cdn.example/a.ts'' \<noteq> ''/proxy-stream/http://cdn.example/a.ts''"
  by (simp add: rewriteM3u8ContentDirect_def https_line_def direct_replacer_def startsWith_def
        line_run_def after_run_def is_line_terminator_def)


section \<open>The cache and the shared part of the proxy handlers\<close>

lemma endsWith_last: "endsWith u p \<Longrightarrow> p \<noteq> [] \<Longrightarrow> u \<noteq> [] \<and> last u = last p"
proof -
  assume e: "endsWith u p" and ne: "p \<noteq> []"
  then have le: "length p \<le> length u" and d: "drop (length u - length p) u = p"
    by (simp_all add: endsWith_def)
  from ne le have u: "u \<noteq> []" by auto
  have "last (drop (length u - length p) u) = last u"
    using ne le by (intro last_drop) (cases p, auto)
  with d u show ?thesis by simp
qed

lemma cacheable_not_manifest: "cacheable u \<Longrightarrow> \<not> endsWith u ''m3u8''"
  unfolding cacheable_def
  using endsWith_last [of u "''m3u8''"] endsWith_last [of u "''.jpg''"]
    endsWith_last [of u "''.html''"] endsWith_last [of u "''.ts''"]
  by auto

lemma cacheable_nonempty: "cacheable u \<Longrightarrow> u \<noteq> []"
  by (auto simp: cacheable_def endsWith_def)

lemma fetched_fetch_and_serve: "fetched (fetch_and_serve fetch hs now c url target) = [target]"
  by (simp add: fetch_and_serve_def split: fetch_result.splits)

lemma cache_get_cases:
  "cache_get now key c = (None, c) \<or> cache_get now key c = (None, AList.delete key c)
     \<or> (\<exists>v. cache_get now key c = (Some v, c))"
  by (auto simp: cache_get_def split: option.splits)

lemma cache_get_store_other: "k \<noteq> key \<Longrightarrow> map_of (snd (cache_get now key c)) k = map_of c k"
  by (auto simp: cache_get_def delete_conv' split: option.splits)

lemma store_fetch_and_serve_other:
  "k \<noteq> url \<Longrightarrow> map_of (store (fetch_and_serve fetch hs now c url target)) k = map_of c k"
  by (simp add: fetch_and_serve_def cache_set_def update_conv' split: fetch_result.splits)

lemma store_cached_or_fetch_other:
  "k \<noteq> url \<Longrightarrow> map_of (store (cached_or_fetch fetch hs now c url target)) k = map_of c k"
  using cache_get_store_other [of k url now c]
  by (auto simp: cached_or_fetch_def store_fetch_and_serve_other split: prod.splits option.splits)

lemma cached_or_fetch_hit:
  "cacheable url \<Longrightarrow> cache_peek now c url = Some hit \<Longrightarrow>
     cached_or_fetch fetch hs now c url target =
       \<lparr>reply = \<lparr>code = 200, header = truthy (contentType hit), payload = Sent (data hit)\<rparr>,
        store = c, fetched = []\<rparr>"
  by (auto simp: cached_or_fetch_def cache_peek_def cache_get_def split: prod.splits option.splits if_splits)

lemma cached_or_fetch_miss:
  "(cacheable url \<longrightarrow> cache_peek now c url = None) \<Longrightarrow>
     cached_or_fetch fetch hs now c url target =
       fetch_and_serve fetch hs now (if cacheable url then snd (cache_get now url c) else c) url target"
  by (auto simp: cached_or_fetch_def cache_peek_def split: prod.splits option.splits)

lemma fetched_cached_or_fetch:
  "fetched (cached_or_fetch fetch hs now c url target) = [] \<or>
   fetched (cached_or_fetch fetch hs now c url target) = [target]"
  by (auto simp: cached_or_fetch_def fetched_fetch_and_serve split: prod.splits option.splits)

lemma cached_or_fetch_fetched_miss:
  "fetched (cached_or_fetch fetch hs now c url target) \<noteq> [] \<Longrightarrow>
     (cacheable url \<longrightarrow> cache_peek now c url = None)"
  by (auto simp: cached_or_fetch_def cache_peek_def split: prod.splits option.splits)

lemma expired_later: "expired now e \<Longrightarrow> now \<le> t \<Longrightarrow> expired t e"
  by (auto simp: expired_def)

lemma cache_get_entries: "set (snd (cache_get now key c)) \<subseteq> set c"
  by (auto simp: cache_get_def AList.delete_eq split: option.splits)

lemma cache_get_peek:
  "now \<le> t \<Longrightarrow> cache_peek t (snd (cache_get now key c)) k = cache_peek t c k"
  by (cases "k = key")
     (auto simp: cache_peek_def cache_get_def delete_conv' expired_later split: option.splits)

lemma fetch_and_serve_failure:
  "fetch hs target = Fetched r \<Longrightarrow> \<not> ok r \<Longrightarrow>
     fetch_and_serve fetch hs now c url target =
       \<lparr>reply = json_error 500 (''Failed to proxy stream: Failed to fetch: ''
                                  @ decimal (status r) @ '' '' @ statusText r),
        store = c, fetched = [target]\<rparr>"
  by (simp add: fetch_and_serve_def proxy_failure_def)

lemma cached_or_fetch_failure:
  assumes "fetched (cached_or_fetch fetch hs now c url target) \<noteq> []"
    and "fetch hs target = Fetched r" and "\<not> ok r"
  shows "reply (cached_or_fetch fetch hs now c url target) =
           json_error 500 (''Failed to proxy stream: Failed to fetch: ''
                             @ decimal (status r) @ '' '' @ statusText r)"
    and "fetched (cached_or_fetch fetch hs now c url target) = [target]"
    and "set (store (cached_or_fetch fetch hs now c url target)) \<subseteq> set c"
    and "now \<le> t \<Longrightarrow> cache_peek t (store (cached_or_fetch fetch hs now c url target)) k = cache_peek t c k"
proof -
  have m: "cached_or_fetch fetch hs now c url target =
       fetch_and_serve fetch hs now (if cacheable url then snd (cache_get now url c) else c) url target"
    using cached_or_fetch_fetched_miss [OF assms(1)] by (rule cached_or_fetch_miss)
  note f = fetch_and_serve_failure [where fetch = fetch and hs = hs and target = target and r = r, OF assms(2,3)]
  show "reply (cached_or_fetch fetch hs now c url target) =
           json_error 500 (''Failed to proxy stream: Failed to fetch: ''
                             @ decimal (status r) @ '' '' @ statusText r)"
    by (simp add: m f)
  show "fetched (cached_or_fetch fetch hs now c url target) = [target]"
    by (simp add: m f)
  show "set (store (cached_or_fetch fetch hs now c url target)) \<subseteq> set c"
    using cache_get_entries [of now url c] by (simp add: m f)
  show "now \<le> t \<Longrightarrow> cache_peek t (store (cached_or_fetch fetch hs now c url target)) k = cache_peek t c k"
    by (simp add: m f cache_get_peek)
qed

lemma cached_or_fetch_manifest:
  assumes "endsWith url ''m3u8''"
  shows "store (cached_or_fetch fetch hs now c url target) = c"
    and "fetched (cached_or_fetch fetch hs now c url target) = [target]"
    and "fetch hs target = Fetched r \<Longrightarrow> ok r \<Longrightarrow>
          reply (cached_or_fetch fetch hs now c url target) =
            \<lparr>code = 200, header = truthy (content_type r),
             payload = Sent (rewriteM3u8ContentDirect (body r))\<rparr>"
proof -
  from assms have nc: "\<not> cacheable url"
    using cacheable_not_manifest by blast
  then have m: "cached_or_fetch fetch hs now c url target = fetch_and_serve fetch hs now c url target"
    by (simp add: cached_or_fetch_def)
  show "store (cached_or_fetch fetch hs now c url target) = c"
    using assms by (simp add: m fetch_and_serve_def split: fetch_result.splits)
  show "fetched (cached_or_fetch fetch hs now c url target) = [target]"
    by (simp add: m fetched_fetch_and_serve)
  show "fetch hs target = Fetched r \<Longrightarrow> ok r \<Longrightarrow>
          reply (cached_or_fetch fetch hs now c url target) =
            \<lparr>code = 200, header = truthy (content_type r),
             payload = Sent (rewriteM3u8ContentDirect (body r))\<rparr>"
    using assms by (simp add: m fetch_and_serve_def)
qed

lemma cache_set_peek:
  "cache_peek now (cache_set now url v c) url = Some v"
  by (simp add: cache_peek_def cache_get_def cache_set_def update_conv' expired_def)

lemma cached_or_fetch_stores:
  assumes "cacheable url" and "cache_peek now c url = None"
    and "fetch hs target = Fetched r" and "ok r"
  shows "cache_peek now (store (cached_or_fetch fetch hs now c url target)) url
           = Some \<lparr>data = body r, contentType = content_type r\<rparr>"
    and "fetched (cached_or_fetch fetch hs now c url target) = [target]"
    and "payload (reply (cached_or_fetch fetch hs now c url target)) = Sent (body r)"
proof -
  have m: "cached_or_fetch fetch hs now c url target =
       fetch_and_serve fetch hs now (snd (cache_get now url c)) url target"
    using cached_or_fetch_miss [of url now c fetch hs target] assms(1,2) by simp
  have nm: "\<not> endsWith url ''m3u8''"
    using assms(1) by (rule cacheable_not_manifest)
  show "cache_peek now (store (cached_or_fetch fetch hs now c url target)) url
           = Some \<lparr>data = body r, contentType = content_type r\<rparr>"
    using assms nm by (simp add: m fetch_and_serve_def cache_set_peek)
  show "fetched (cached_or_fetch fetch hs now c url target) = [target]"
    by (simp add: m fetched_fetch_and_serve)
  show "payload (reply (cached_or_fetch fetch hs now c url target)) = Sent (body r)"
    using assms nm by (simp add: m fetch_and_serve_def)
qed

lemma keys_cache_get: "set (cache_keys (snd (cache_get now key c))) \<subseteq> set (cache_keys c)"
  using cache_get_entries [of now key c] by (auto simp: cache_keys_def)

lemma keys_cache_set:
  "set (cache_keys (cache_set now url v c)) = insert url (set (cache_keys c))"
  by (simp add: cache_keys_def cache_set_def dom_update)

lemma keys_fetch_and_serve:
  "k \<in> set (cache_keys (store (fetch_and_serve fetch hs now c url target))) \<Longrightarrow>
     k \<in> set (cache_keys c) \<or> (k = url \<and> cacheable url)"
  by (auto simp: fetch_and_serve_def keys_cache_set split: fetch_result.splits if_splits)

lemma keys_cached_or_fetch:
  "k \<in> set (cache_keys (store (cached_or_fetch fetch hs now c url target))) \<Longrightarrow>
     k \<in> set (cache_keys c) \<or> (k = url \<and> cacheable url)"
proof (cases "cacheable url \<longrightarrow> cache_peek now c url = None")
  case True
  assume k: "k \<in> set (cache_keys (store (cached_or_fetch fetch hs now c url target)))"
  show ?thesis
    using k keys_cache_get [of now url c]
      keys_fetch_and_serve [of k fetch hs now "if cacheable url then snd (cache_get now url c) else c" url target]
    by (auto simp: cached_or_fetch_miss [OF True] split: if_splits)
next
  case False
  assume k: "k \<in> set (cache_keys (store (cached_or_fetch fetch hs now c url target)))"
  from False obtain hit where "cacheable url" "cache_peek now c url = Some hit" by auto
  with k show ?thesis by (simp add: cached_or_fetch_hit)
qed

section \<open>The proxy handlers\<close>

lemma viper_proxy_parsed:
  "originalUrl \<noteq> [] \<Longrightarrow> parse originalUrl = Inr urlObj \<Longrightarrow>
     viper_proxy parse fetch now c originalUrl =
       cached_or_fetch fetch GatewayHeaders now c originalUrl
         (''https://embed.su/api/proxy/viper/'' @ hostname urlObj @ pathname urlObj @ search urlObj)"
  by (simp add: viper_proxy_def viper_transform_def)

lemma proxy_stream_given:
  "streamUrl \<noteq> [] \<Longrightarrow>
     proxy_stream fetch now c streamUrl = cached_or_fetch fetch DirectHeaders now c streamUrl streamUrl"
  by (simp add: proxy_stream_def)

lemma decimal_404: "decimal 404 = ''404''"
  by (simp add: decimal.simps digit_def)

lemma proxy_stream_fetched_given: "fetched (proxy_stream fetch now c streamUrl) \<noteq> [] \<Longrightarrow> streamUrl \<noteq> []"
  by (auto simp: proxy_stream_def)

lemma viper_proxy_fetched_given:
  "fetched (viper_proxy parse fetch now c originalUrl) \<noteq> [] \<Longrightarrow> originalUrl \<noteq> []"
  by (auto simp: viper_proxy_def)

lemma viper_proxy_transformed:
  "originalUrl \<noteq> [] \<Longrightarrow> viper_transform parse originalUrl = Inr transformedUrl \<Longrightarrow>
     viper_proxy parse fetch now c originalUrl =
       cached_or_fetch fetch GatewayHeaders now c originalUrl transformedUrl"
  by (simp add: viper_proxy_def)

lemma code_fetch_and_serve:
  "code (reply (fetch_and_serve fetch hs now c url target)) = 200
   \<or> code (reply (fetch_and_serve fetch hs now c url target)) = 500"
  by (simp add: fetch_and_serve_def proxy_failure_def json_error_def split: fetch_result.splits)

lemma code_cached_or_fetch:
  "code (reply (cached_or_fetch fetch hs now c url target)) = 200
   \<or> code (reply (cached_or_fetch fetch hs now c url target)) = 500"
  using code_fetch_and_serve
  by (auto simp: cached_or_fetch_def split: prod.splits option.splits)

lemma fetch_and_serve_throws:
  "fetch hs target = FetchThrows err \<Longrightarrow>
     reply (fetch_and_serve fetch hs now c url target) = json_error 500 (''Failed to proxy stream: '' @ err)"
  by (simp add: fetch_and_serve_def proxy_failure_def)

text \<open>
  C7. For a client-supplied URL that the host-rewriting handler accepts (it is not empty
  and the URL constructor parses it), the URL handed to \<open>fetch\<close> is
  \<open>https://embed.su/api/proxy/viper/\<close> followed by the host name, the path and the query
  of the parsed URL: the transformation yields it, the handler fetches nothing else, and
  it fetches exactly that unless it answers from the cache. For
  \<open>https://stormyclouds42.xyz/file2/seg.ts?x=1\<close> the target is
  \<open>https://embed.su/api/proxy/viper/stormyclouds42.xyz/file2/seg.ts?x=1\<close>.
\<close>

theorem viper_fetch_target:
  "(originalUrl \<noteq> [] \<and> parse originalUrl = Inr urlObj \<longrightarrow>
      viper_transform parse originalUrl
        = Inr (''https://embed.su/api/proxy/viper/'' @ hostname urlObj @ pathname urlObj @ search urlObj)
      \<and> (fetched (viper_proxy parse fetch now c originalUrl) = []
          \<or> fetched (viper_proxy parse fetch now c originalUrl)
              = [''https://embed.su/api/proxy/viper/'' @ hostname urlObj @ pathname urlObj @ search urlObj])
      \<and> ((cacheable originalUrl \<longrightarrow> cache_peek now c originalUrl = None) \<longrightarrow>
            fetched (viper_proxy parse fetch now c originalUrl)
              = [''https://embed.su/api/proxy/viper/'' @ hostname urlObj @ pathname urlObj @ search urlObj]))
   \<and> viper_transform parseURL ''https://stormyclouds42.xyz/file2/seg.ts?x=1''
       = Inr ''https://embed.su/api/proxy/viper/stormyclouds42.xyz/file2/seg.ts?x=1''"
proof (intro conjI impI)
  assume a: "originalUrl \<noteq> [] \<and> parse originalUrl = Inr urlObj"
  then show "viper_transform parse originalUrl
        = Inr (''https://embed.su/api/proxy/viper/'' @ hostname urlObj @ pathname urlObj @ search urlObj)"
    by (simp add: viper_transform_def)
  from a have v: "viper_proxy parse fetch now c originalUrl =
       cached_or_fetch fetch GatewayHeaders now c originalUrl
         (''https://embed.su/api/proxy/viper/'' @ hostname urlObj @ pathname urlObj @ search urlObj)"
    by (simp add: viper_proxy_parsed)
  show "fetched (viper_proxy parse fetch now c originalUrl) = []
          \<or> fetched (viper_proxy parse fetch now c originalUrl)
              = [''https://embed.su/api/proxy/viper/'' @ hostname urlObj @ pathname urlObj @ search urlObj]"
    unfolding v by (rule fetched_cached_or_fetch)
  assume "cacheable originalUrl \<longrightarrow> cache_peek now c originalUrl = None"
  then show "fetched (viper_proxy parse fetch now c originalUrl)
              = [''https://embed.su/api/proxy/viper/'' @ hostname urlObj @ pathname urlObj @ search urlObj]"
    unfolding v by (simp only: cached_or_fetch_miss fetched_fetch_and_serve)
next
  show "viper_transform parseURL ''https://stormyclouds42.xyz/file2/seg.ts?x=1''
       = Inr ''https://embed.su/api/proxy/viper/stormyclouds42.xyz/file2/seg.ts?x=1''"
    by (simp add: viper_transform_def parseURL_def Let_def startsWith_def)
qed

theorem viper_fetch_target_witness:
  "''https://stormyclouds42.xyz/file2/seg.ts?x=1'' \<noteq> []
   \<and> parseURL ''https://stormyclouds42.xyz/file2/seg.ts?x=1''
       = Inr \<lparr>protocol = ''https:'', host = ''stormyclouds42.xyz'', hostname = ''stormyclouds42.xyz'',
              pathname = ''/file2/seg.ts'', search = ''?x=1''\<rparr>
   \<and> \<not> cacheable ''https://stormyclouds42.xyz/file2/seg.ts?x=1''
   \<and> fetched (viper_proxy parseURL upstream_refuses 0 []
                ''https://stormyclouds42.xyz/file2/seg.ts?x=1'')
       = [''https://embed.su/api/proxy/viper/stormyclouds42.xyz/file2/seg.ts?x=1'']"
proof -
  have p: "parseURL ''https://stormyclouds42.xyz/file2/seg.ts?x=1''
       = Inr \<lparr>protocol = ''https:'', host = ''stormyclouds42.xyz'', hostname = ''stormyclouds42.xyz'',
              pathname = ''/file2/seg.ts'', search = ''?x=1''\<rparr>"
    by (simp add: parseURL_def Let_def startsWith_def)
  have n: "\<not> cacheable ''https://stormyclouds42.xyz/file2/seg.ts?x=1''"
    by (simp add: cacheable_def endsWith_def)
  from viper_fetch_target [of "''https://stormyclouds42.xyz/file2/seg.ts?x=1''" parseURL
      "\<lparr>protocol = ''https:'', host = ''stormyclouds42.xyz'', hostname = ''stormyclouds42.xyz'',
              pathname = ''/file2/seg.ts'', search = ''?x=1''\<rparr>"
      upstream_refuses 0 "[]"] p n
  show ?thesis by simp
qed

text \<open>
  C8. When the upstream fetch of a request answers with a status outside 200..299, both
  proxy handlers reply with status 500 and a JSON error whose message is
  \<open>Failed to proxy stream: Failed to fetch:\<close> followed by the status code in decimal
  and the status text; the fetch was made once; no entry is
  written to the cache (every entry left was there before) and every lookup answers as
  before. A 404 for a segment gives a message containing \<open>404\<close> and leaves the cache
  empty.
\<close>

theorem upstream_error_reported:
  "(fetched (proxy_stream fetch now c streamUrl) \<noteq> []
      \<and> fetch DirectHeaders streamUrl = Fetched r \<and> \<not> ok r \<longrightarrow>
      reply (proxy_stream fetch now c streamUrl)
        = \<lparr>code = 500, header = None,
           payload = JsonError (''Failed to proxy stream: Failed to fetch: ''
                                  @ decimal (status r) @ '' '' @ statusText r)\<rparr>
      \<and> fetched (proxy_stream fetch now c streamUrl) = [streamUrl]
      \<and> set (store (proxy_stream fetch now c streamUrl)) \<subseteq> set c
      \<and> (now \<le> t \<longrightarrow> cache_peek t (store (proxy_stream fetch now c streamUrl)) k = cache_peek t c k))
   \<and> (fetched (viper_proxy parse fetch now c originalUrl) \<noteq> []
      \<and> viper_transform parse originalUrl = Inr transformedUrl
      \<and> fetch GatewayHeaders transformedUrl = Fetched r \<and> \<not> ok r \<longrightarrow>
      reply (viper_proxy parse fetch now c originalUrl)
        = \<lparr>code = 500, header = None,
           payload = JsonError (''Failed to proxy stream: Failed to fetch: ''
                                  @ decimal (status r) @ '' '' @ statusText r)\<rparr>
      \<and> fetched (viper_proxy parse fetch now c originalUrl) = [transformedUrl]
      \<and> set (store (viper_proxy parse fetch now c originalUrl)) \<subseteq> set c
      \<and> (now \<le> t \<longrightarrow> cache_peek t (store (viper_proxy parse fetch now c originalUrl)) k = cache_peek t c k))
   \<and> proxy_stream upstream_404 now [] ''https://cdn.example/seg.ts''
       = \<lparr>reply = \<lparr>code = 500, header = None,
            payload = JsonError ''Failed to proxy stream: Failed to fetch: 404 Not Found''\<rparr>,
          store = [], fetched = [''https://cdn.example/seg.ts'']\<rparr>"
proof (intro conjI impI)
  assume a: "fetched (proxy_stream fetch now c streamUrl) \<noteq> []
      \<and> fetch DirectHeaders streamUrl = Fetched r \<and> \<not> ok r"
  then have g: "proxy_stream fetch now c streamUrl
      = cached_or_fetch fetch DirectHeaders now c streamUrl streamUrl"
    using proxy_stream_fetched_given proxy_stream_given by blast
  from a have f: "fetched (cached_or_fetch fetch DirectHeaders now c streamUrl streamUrl) \<noteq> []"
    "fetch DirectHeaders streamUrl = Fetched r" "\<not> ok r"
    by (simp_all add: g)
  note facts = cached_or_fetch_failure [where fetch = fetch and hs = DirectHeaders, OF f]
  show "reply (proxy_stream fetch now c streamUrl)
        = \<lparr>code = 500, header = None,
           payload = JsonError (''Failed to proxy stream: Failed to fetch: ''
                                  @ decimal (status r) @ '' '' @ statusText r)\<rparr>"
    unfolding g using facts(1) by (simp add: json_error_def)
  show "fetched (proxy_stream fetch now c streamUrl) = [streamUrl]"
    unfolding g by (rule facts(2))
  show "set (store (proxy_stream fetch now c streamUrl)) \<subseteq> set c"
    unfolding g by (rule facts(3))
  assume "now \<le> t"
  then show "cache_peek t (store (proxy_stream fetch now c streamUrl)) k = cache_peek t c k"
    unfolding g by (rule facts(4))
next
  assume a: "fetched (viper_proxy parse fetch now c originalUrl) \<noteq> []
      \<and> viper_transform parse originalUrl = Inr transformedUrl
      \<and> fetch GatewayHeaders transformedUrl = Fetched r \<and> \<not> ok r"
  then have g: "viper_proxy parse fetch now c originalUrl
      = cached_or_fetch fetch GatewayHeaders now c originalUrl transformedUrl"
    using viper_proxy_fetched_given viper_proxy_transformed by blast
  from a have f: "fetched (cached_or_fetch fetch GatewayHeaders now c originalUrl transformedUrl) \<noteq> []"
    "fetch GatewayHeaders transformedUrl = Fetched r" "\<not> ok r"
    by (simp_all add: g)
  note facts = cached_or_fetch_failure [where fetch = fetch and hs = GatewayHeaders, OF f]
  show "reply (viper_proxy parse fetch now c originalUrl)
        = \<lparr>code = 500, header = None,
           payload = JsonError (''Failed to proxy stream: Failed to fetch: ''
                                  @ decimal (status r) @ '' '' @ statusText r)\<rparr>"
    unfolding g using facts(1) by (simp add: json_error_def)
  show "fetched (viper_proxy parse fetch now c originalUrl) = [transformedUrl]"
    unfolding g by (rule facts(2))
  show "set (store (viper_proxy parse fetch now c originalUrl)) \<subseteq> set c"
    unfolding g by (rule facts(3))
  assume "now \<le> t"
  then show "cache_peek t (store (viper_proxy parse fetch now c originalUrl)) k = cache_peek t c k"
    unfolding g by (rule facts(4))
next
  show "proxy_stream upstream_404 now [] ''https://cdn.example/seg.ts''
       = \<lparr>reply = \<lparr>code = 500, header = None,
            payload = JsonError ''Failed to proxy stream: Failed to fetch: 404 Not Found''\<rparr>,
          store = [], fetched = [''https://cdn.example/seg.ts'']\<rparr>"
    by (simp add: proxy_stream_def cached_or_fetch_def cacheable_def endsWith_def cache_get_def
          fetch_and_serve_def ok_def proxy_failure_def json_error_def decimal_404 upstream_404_def)
qed

theorem upstream_error_reported_witness:
  "fetched (proxy_stream upstream_404 0 one_segment ''https://cdn.example/b.ts'') \<noteq> []
   \<and> \<not> ok \<lparr>status = 404, statusText = ''Not Found'', content_type = None, body = []\<rparr>
   \<and> fetched (viper_proxy parseURL upstream_404 0 one_segment ''https://stormyclouds42.xyz/file2/seg.ts'') \<noteq> []
   \<and> viper_transform parseURL ''https://stormyclouds42.xyz/file2/seg.ts''
        = Inr ''https://embed.su/api/proxy/viper/stormyclouds42.xyz/file2/seg.ts''
   \<and> reply (proxy_stream upstream_404 0 one_segment ''https://cdn.example/b.ts'')
        = \<lparr>code = 500, header = None,
            payload = JsonError ''Failed to proxy stream: Failed to fetch: 404 Not Found''\<rparr>
   \<and> set (store (proxy_stream upstream_404 0 one_segment ''https://cdn.example/b.ts'')) \<subseteq> set one_segment
   \<and> cache_peek 0 (store (proxy_stream upstream_404 0 one_segment ''https://cdn.example/b.ts''))
          ''https://cdn.example/b.ts'' = cache_peek 0 one_segment ''https://cdn.example/b.ts''
   \<and> reply (viper_proxy parseURL upstream_404 0 one_segment ''https://stormyclouds42.xyz/file2/seg.ts'')
        = \<lparr>code = 500, header = None,
            payload = JsonError ''Failed to proxy stream: Failed to fetch: 404 Not Found''\<rparr>
   \<and> set (store (viper_proxy parseURL upstream_404 0 one_segment ''https://stormyclouds42.xyz/file2/seg.ts''))
        \<subseteq> set one_segment"
proof -
  have h1: "fetched (proxy_stream upstream_404 0 one_segment ''https://cdn.example/b.ts'') \<noteq> []"
    by (simp add: proxy_stream_def cached_or_fetch_def cacheable_def endsWith_def cache_get_def
          one_segment_def fetched_fetch_and_serve)
  have h2: "upstream_404 hs u
      = Fetched \<lparr>status = 404, statusText = ''Not Found'', content_type = None, body = []\<rparr>" for hs u
    by (simp add: upstream_404_def)
  have h3: "\<not> ok \<lparr>status = 404, statusText = ''Not Found'', content_type = None, body = []\<rparr>"
    by (simp add: ok_def)
  have h4: "viper_transform parseURL ''https://stormyclouds42.xyz/file2/seg.ts''
        = Inr ''https://embed.su/api/proxy/viper/stormyclouds42.xyz/file2/seg.ts''"
    by (simp add: viper_transform_def parseURL_def Let_def startsWith_def)
  have h5: "fetched (viper_proxy parseURL upstream_404 0 one_segment ''https://stormyclouds42.xyz/file2/seg.ts'') \<noteq> []"
    by (simp add: viper_proxy_def h4 cached_or_fetch_def cacheable_def endsWith_def cache_get_def
          one_segment_def fetched_fetch_and_serve)
  from upstream_error_reported [of upstream_404 0 one_segment "''https://cdn.example/b.ts''"
      "\<lparr>status = 404, statusText = ''Not Found'', content_type = None, body = []\<rparr>"
      0 "''https://cdn.example/b.ts''" parseURL "''https://stormyclouds42.xyz/file2/seg.ts''"
      "''https://embed.su/api/proxy/viper/stormyclouds42.xyz/file2/seg.ts''"]
    h1 h2 h3 h4 h5
  show ?thesis by (simp add: decimal_404)
qed

text \<open>
  C5 (as amended). The host-rewriting handler replies 400, without a fetch and without
  touching the cache, for every client-supplied URL that the URL constructor rejects. The
  pass-through handler does not parse the URL: it replies 400 exactly for the empty URL,
  and hands any other URL that is not answered from the cache to \<open>fetch\<close>; when \<open>fetch\<close>
  throws, the reply is 500 with the message of the failure.
\<close>

theorem unparsable_url_handling:
  "(parse originalUrl = Inl msg \<longrightarrow>
      code (reply (viper_proxy parse fetch now c originalUrl)) = 400
      \<and> fetched (viper_proxy parse fetch now c originalUrl) = []
      \<and> store (viper_proxy parse fetch now c originalUrl) = c)
   \<and> (code (reply (proxy_stream fetch now c streamUrl)) = 400 \<longleftrightarrow> streamUrl = [])
   \<and> (streamUrl \<noteq> [] \<and> (cacheable streamUrl \<longrightarrow> cache_peek now c streamUrl = None)
        \<and> fetch DirectHeaders streamUrl = FetchThrows err \<longrightarrow>
        reply (proxy_stream fetch now c streamUrl)
          = json_error 500 (''Failed to proxy stream: '' @ err)
        \<and> fetched (proxy_stream fetch now c streamUrl) = [streamUrl])"
proof (intro conjI impI)
  assume "parse originalUrl = Inl msg"
  then have v: "viper_proxy parse fetch now c originalUrl =
      (if originalUrl = []
       then \<lparr>reply = json_error 400 ''Stream URL is required'', store = c, fetched = []\<rparr>
       else \<lparr>reply = json_error 400 (''Invalid URL format: '' @ msg), store = c, fetched = []\<rparr>)"
    by (simp add: viper_proxy_def viper_transform_def)
  show "code (reply (viper_proxy parse fetch now c originalUrl)) = 400"
    by (simp add: v json_error_def)
  show "fetched (viper_proxy parse fetch now c originalUrl) = []"
    by (simp add: v)
  show "store (viper_proxy parse fetch now c originalUrl) = c"
    by (simp add: v)
next
  show "code (reply (proxy_stream fetch now c streamUrl)) = 400 \<longleftrightarrow> streamUrl = []"
    using code_cached_or_fetch [of fetch DirectHeaders now c streamUrl streamUrl]
    by (auto simp: proxy_stream_def json_error_def)
next
  assume a: "streamUrl \<noteq> [] \<and> (cacheable streamUrl \<longrightarrow> cache_peek now c streamUrl = None)
        \<and> fetch DirectHeaders streamUrl = FetchThrows err"
  then have g: "proxy_stream fetch now c streamUrl
      = fetch_and_serve fetch DirectHeaders now
          (if cacheable streamUrl then snd (cache_get now streamUrl c) else c) streamUrl streamUrl"
    by (simp add: proxy_stream_given cached_or_fetch_miss)
  from a show "reply (proxy_stream fetch now c streamUrl)
          = json_error 500 (''Failed to proxy stream: '' @ err)"
    unfolding g by (simp add: fetch_and_serve_throws)
  show "fetched (proxy_stream fetch now c streamUrl) = [streamUrl]"
    unfolding g by (rule fetched_fetch_and_serve)
qed

theorem unparsable_url_handling_witness:
  "parseURL ''not a url'' = Inl ''Invalid URL''
   \<and> ''not a url'' \<noteq> [] \<and> \<not> cacheable ''not a url''
   \<and> upstream_refuses DirectHeaders ''not a url'' = FetchThrows ''Only absolute URLs are supported''
   \<and> code (reply (viper_proxy parseURL upstream_refuses 0 one_segment ''not a url'')) = 400
   \<and> fetched (viper_proxy parseURL upstream_refuses 0 one_segment ''not a url'') = []
   \<and> store (viper_proxy parseURL upstream_refuses 0 one_segment ''not a url'') = one_segment
   \<and> reply (proxy_stream upstream_refuses 0 one_segment ''not a url'')
        = json_error 500 ''Failed to proxy stream: Only absolute URLs are supported''
   \<and> fetched (proxy_stream upstream_refuses 0 one_segment ''not a url'') = [''not a url'']"
proof -
  have h1: "parseURL ''not a url'' = Inl ''Invalid URL''"
    by (simp add: parseURL_def Let_def startsWith_def)
  have h2: "\<not> cacheable ''not a url''"
    by (simp add: cacheable_def endsWith_def)
  have h3: "upstream_refuses DirectHeaders ''not a url'' = FetchThrows ''Only absolute URLs are supported''"
    by (simp add: upstream_refuses_def)
  from unparsable_url_handling [of parseURL "''not a url''" "''Invalid URL''" upstream_refuses 0
      one_segment "''not a url''" "''Only absolute URLs are supported''"] h1 h2 h3
  show ?thesis by simp
qed

text \<open>
  C5 as stated fails for the pass-through handler: a URL that cannot be parsed is handed
  to \<open>fetch\<close>, and the reply is 500, not 400.
\<close>

theorem proxy_stream_unparsable_url:
  "parseURL ''not a url'' = Inl ''Invalid URL''
   \<and> proxy_stream upstream_refuses 0 [] ''not a url''
       = \<lparr>reply = \<lparr>code = 500, header = None,
                    payload = JsonError ''Failed to proxy stream: Only absolute URLs are supported''\<rparr>,
          store = [], fetched = [''not a url'']\<rparr>"
  by (simp add: parseURL_def Let_def startsWith_def proxy_stream_def cached_or_fetch_def
        cacheable_def endsWith_def fetch_and_serve_def upstream_refuses_def proxy_failure_def
        json_error_def)

section \<open>Clearing the cache\<close>





section \<open>What is ever cached\<close>

lemma keys_cache_check: "set (cache_keys (cache_check now c)) \<subseteq> set (cache_keys c)"
  by (auto simp: cache_keys_def cache_check_def)

lemma keys_handle:
  "k \<in> set (cache_keys (handle parse world admin c ev)) \<Longrightarrow>
     k \<in> set (cache_keys c) \<or> cacheable k"
proof -
  assume k: "k \<in> set (cache_keys (handle parse world admin c ev))"
  obtain now req where ev: "ev = (now, req)" by (cases ev)
  show ?thesis
  proof (cases req)
    case (ProxyStream u)
    with k ev show ?thesis
      using keys_cached_or_fetch [of k "world now" DirectHeaders now c u u]
      by (auto simp: proxy_stream_def split: if_splits)
  next
    case (ViperProxy u)
    show ?thesis
    proof (cases "viper_transform parse u")
      case (Inl msg)
      with k ev ViperProxy show ?thesis
        by (auto simp: viper_proxy_def split: if_splits)
    next
      case (Inr t)
      with k ev ViperProxy show ?thesis
        using keys_cached_or_fetch [of k "world now" GatewayHeaders now c u t]
        by (auto simp: viper_proxy_def split: if_splits)
    qed
  next
    case (ClearCache token)
    with k ev show ?thesis
      by (auto simp: clear_cache_def cache_flushAll_def cache_keys_def Let_def split: if_splits)
  next
    case Check
    with k ev show ?thesis
      using keys_cache_check [of now c] by auto
  qed
qed

lemma keys_foldl_handle:
  "(\<And>k. k \<in> set (cache_keys c) \<Longrightarrow> cacheable k) \<Longrightarrow>
     k \<in> set (cache_keys (foldl (handle parse world admin) c events)) \<Longrightarrow> cacheable k"
proof (induction events arbitrary: c)
  case Nil
  then show ?case by simp
next
  case (Cons ev events)
  have "\<And>k. k \<in> set (cache_keys (handle parse world admin c ev)) \<Longrightarrow> cacheable k"
    using keys_handle Cons.prems(1) by blast
  with Cons.IH [of "handle parse world admin c ev"] Cons.prems(2) show ?case
    by simp
qed

lemma keys_run: "k \<in> set (cache_keys (run parse world admin events)) \<Longrightarrow> cacheable k"
  unfolding run_def by (rule keys_foldl_handle [of "[]"]) (simp_all add: cache_keys_def)

lemma distinct_cached_or_fetch:
  "distinct (cache_keys c) \<Longrightarrow>
     distinct (cache_keys (store (cached_or_fetch fetch hs now c url target)))"
  by (auto simp: cached_or_fetch_def fetch_and_serve_def cache_get_def cache_set_def cache_keys_def
      distinct_update distinct_delete split: prod.splits option.splits fetch_result.splits if_splits)

lemma distinct_handle:
  "distinct (cache_keys c) \<Longrightarrow> distinct (cache_keys (handle parse world admin c ev))"
proof -
  assume d: "distinct (cache_keys c)"
  obtain now req where ev: "ev = (now, req)" by (cases ev)
  show ?thesis
  proof (cases req)
    case (ProxyStream u)
    with d ev show ?thesis
      by (simp add: proxy_stream_def distinct_cached_or_fetch)
  next
    case (ViperProxy u)
    with d ev show ?thesis
      by (cases "viper_transform parse u") (simp_all add: viper_proxy_def distinct_cached_or_fetch)
  next
    case (ClearCache token)
    with d ev show ?thesis
      by (simp add: clear_cache_def cache_flushAll_def cache_keys_def Let_def)
  next
    case Check
    with d ev show ?thesis
      by (simp add: cache_check_def cache_keys_def distinct_map_filter)
  qed
qed

lemma distinct_keys_run: "distinct (cache_keys (run parse world admin events))"
proof -
  have "distinct (cache_keys c) \<Longrightarrow>
      distinct (cache_keys (foldl (handle parse world admin) c events))" for c
    by (induction events arbitrary: c) (simp_all add: distinct_handle)
  then show ?thesis by (simp add: run_def cache_keys_def)
qed

lemma manifest_nonempty: "endsWith u ''m3u8'' \<Longrightarrow> u \<noteq> []"
  by (auto simp: endsWith_def)

lemmas eval_handlers =
  proxy_stream_def viper_proxy_def viper_transform_def cached_or_fetch_def fetch_and_serve_def
  cacheable_def endsWith_def startsWith_def cache_get_def cache_set_def cache_keys_def
  cache_peek_def expired_def stdTTL_def ok_def truthy_def proxy_failure_def json_error_def
  parseURL_def Let_def run_def steady_def one_segment_def
  upstream_404_def upstream_segment_def upstream_manifest_def upstream_refuses_def

lemmas eval_rewrite =
  rewriteM3u8ContentDirect_def https_line_def direct_replacer_def line_run_def after_run_def
  is_line_terminator_def

text \<open>
  C9. A request whose URL ends in \<open>m3u8\<close> leaves the cache exactly as it was, on both
  proxy handlers; it is fetched on every request, and a 2xx answer is returned rewritten
  in direct mode. Whatever requests, cache clearings and periodic checks the server has
  handled since it started, every key in the cache ends in \<open>.jpg\<close>, \<open>.html\<close> or \<open>.ts\<close>
  and none ends in \<open>m3u8\<close>.
\<close>

theorem manifests_never_cached:
  "(endsWith streamUrl ''m3u8'' \<longrightarrow>
      store (proxy_stream fetch now c streamUrl) = c
      \<and> fetched (proxy_stream fetch now c streamUrl) = [streamUrl])
   \<and> (endsWith streamUrl ''m3u8'' \<and> fetch DirectHeaders streamUrl = Fetched r \<and> ok r \<longrightarrow>
      reply (proxy_stream fetch now c streamUrl)
        = \<lparr>code = 200, header = truthy (content_type r),
           payload = Sent (rewriteM3u8ContentDirect (body r))\<rparr>)
   \<and> (endsWith originalUrl ''m3u8'' \<longrightarrow> store (viper_proxy parse fetch now c originalUrl) = c)
   \<and> (endsWith originalUrl ''m3u8'' \<and> viper_transform parse originalUrl = Inr transformedUrl
        \<and> fetch GatewayHeaders transformedUrl = Fetched r \<and> ok r \<longrightarrow>
      fetched (viper_proxy parse fetch now c originalUrl) = [transformedUrl]
      \<and> reply (viper_proxy parse fetch now c originalUrl)
          = \<lparr>code = 200, header = truthy (content_type r),
             payload = Sent (rewriteM3u8ContentDirect (body r))\<rparr>)
   \<and> (key \<in> set (cache_keys (run parse world admin events)) \<longrightarrow>
        cacheable key \<and> \<not> endsWith key ''m3u8'')"
proof (intro conjI impI)
  assume m: "endsWith streamUrl ''m3u8''"
  then have g: "proxy_stream fetch now c streamUrl
      = cached_or_fetch fetch DirectHeaders now c streamUrl streamUrl"
    by (simp add: proxy_stream_given manifest_nonempty)
  show "store (proxy_stream fetch now c streamUrl) = c"
    unfolding g using m by (rule cached_or_fetch_manifest(1))
  show "fetched (proxy_stream fetch now c streamUrl) = [streamUrl]"
    unfolding g using m by (rule cached_or_fetch_manifest(2))
next
  assume a: "endsWith streamUrl ''m3u8'' \<and> fetch DirectHeaders streamUrl = Fetched r \<and> ok r"
  then have g: "proxy_stream fetch now c streamUrl
      = cached_or_fetch fetch DirectHeaders now c streamUrl streamUrl"
    by (simp add: proxy_stream_given manifest_nonempty)
  from a show "reply (proxy_stream fetch now c streamUrl)
        = \<lparr>code = 200, header = truthy (content_type r),
           payload = Sent (rewriteM3u8ContentDirect (body r))\<rparr>"
    unfolding g by (simp add: cached_or_fetch_manifest(3))
next
  assume m: "endsWith originalUrl ''m3u8''"
  show "store (viper_proxy parse fetch now c originalUrl) = c"
  proof (cases "viper_transform parse originalUrl")
    case (Inl msg)
    then show ?thesis by (simp add: viper_proxy_def)
  next
    case (Inr t)
    with m have "viper_proxy parse fetch now c originalUrl
        = cached_or_fetch fetch GatewayHeaders now c originalUrl t"
      by (simp add: viper_proxy_transformed manifest_nonempty)
    with m show ?thesis by (simp add: cached_or_fetch_manifest(1))
  qed
next
  assume a: "endsWith originalUrl ''m3u8'' \<and> viper_transform parse originalUrl = Inr transformedUrl
        \<and> fetch GatewayHeaders transformedUrl = Fetched r \<and> ok r"
  then have g: "viper_proxy parse fetch now c originalUrl
        = cached_or_fetch fetch GatewayHeaders now c originalUrl transformedUrl"
    by (simp add: viper_proxy_transformed manifest_nonempty)
  from a show "fetched (viper_proxy parse fetch now c originalUrl) = [transformedUrl]"
    unfolding g by (simp add: cached_or_fetch_manifest(2))
  from a show "reply (viper_proxy parse fetch now c originalUrl)
          = \<lparr>code = 200, header = truthy (content_type r),
             payload = Sent (rewriteM3u8ContentDirect (body r))\<rparr>"
    unfolding g by (simp add: cached_or_fetch_manifest(3))
next
  assume k: "key \<in> set (cache_keys (run parse world admin events))"
  then show "cacheable key" by (rule keys_run)
  then show "\<not> endsWith key ''m3u8''" by (rule cacheable_not_manifest)
qed

theorem manifests_never_cached_witness:
  "endsWith ''https://cdn.example/index.m3u8'' ''m3u8''
   \<and> ok \<lparr>status = 200, statusText = ''OK'',
          content_type = Some ''application/vnd.apple.mpegurl'',
          body = ''#EXTM3U\<newline>https://cdn.example/a.ts\<newline>#EXT-X-ENDLIST''\<rparr>
   \<and> store (proxy_stream upstream_manifest 0 one_segment ''https://cdn.example/index.m3u8'') = one_segment
   \<and> payload (reply (proxy_stream upstream_manifest 0 one_segment ''https://cdn.example/index.m3u8''))
       = Sent ''#EXTM3U\<newline>/proxy-stream/https://cdn.example/a.ts\<newline>#EXT-X-ENDLIST''
   \<and> endsWith ''https://stormyclouds42.xyz/file2/index.m3u8'' ''m3u8''
   \<and> viper_transform parseURL ''https://stormyclouds42.xyz/file2/index.m3u8''
       = Inr ''https://embed.su/api/proxy/viper/stormyclouds42.xyz/file2/index.m3u8''
   \<and> store (viper_proxy parseURL upstream_manifest 0 one_segment
               ''https://stormyclouds42.xyz/file2/index.m3u8'') = one_segment
   \<and> payload (reply (viper_proxy parseURL upstream_manifest 0 one_segment
                        ''https://stormyclouds42.xyz/file2/index.m3u8''))
       = Sent ''#EXTM3U\<newline>/proxy-stream/https://cdn.example/a.ts\<newline>#EXT-X-ENDLIST''
   \<and> ''https://cdn.example/a.ts''
        \<in> set (cache_keys (run parseURL (steady upstream_segment) None
                   [(0, ProxyStream ''https://cdn.example/index.m3u8''),
                    (1, ProxyStream ''https://cdn.example/a.ts'')]))
   \<and> cacheable ''https://cdn.example/a.ts''
   \<and> \<not> endsWith ''https://cdn.example/a.ts'' ''m3u8''"
proof -
  have h1: "endsWith ''https://cdn.example/index.m3u8'' ''m3u8''"
    by (simp add: endsWith_def)
  have h2: "upstream_manifest hs u = Fetched \<lparr>status = 200, statusText = ''OK'',
          content_type = Some ''application/vnd.apple.mpegurl'',
          body = ''#EXTM3U\<newline>https://cdn.example/a.ts\<newline>#EXT-X-ENDLIST''\<rparr>" for hs u
    by (simp add: upstream_manifest_def)
  have h3: "ok \<lparr>status = 200, statusText = ''OK'',
          content_type = Some ''application/vnd.apple.mpegurl'',
          body = ''#EXTM3U\<newline>https://cdn.example/a.ts\<newline>#EXT-X-ENDLIST''\<rparr>"
    by (simp add: ok_def)
  have h4: "endsWith ''https://stormyclouds42.xyz/file2/index.m3u8'' ''m3u8''"
    by (simp add: endsWith_def)
  have h5: "viper_transform parseURL ''https://stormyclouds42.xyz/file2/index.m3u8''
       = Inr ''https://embed.su/api/proxy/viper/stormyclouds42.xyz/file2/index.m3u8''"
    by (simp add: viper_transform_def parseURL_def Let_def startsWith_def)
  have h6: "''https://cdn.example/a.ts''
        \<in> set (cache_keys (run parseURL (steady upstream_segment) None
                   [(0, ProxyStream ''https://cdn.example/index.m3u8''),
                    (1, ProxyStream ''https://cdn.example/a.ts'')]))"
    by (simp add: eval_handlers)
  have rw: "rewriteM3u8ContentDirect ''#EXTM3U\<newline>https://cdn.example/a.ts\<newline>#EXT-X-ENDLIST''
      = ''#EXTM3U\<newline>/proxy-stream/https://cdn.example/a.ts\<newline>#EXT-X-ENDLIST''"
    by (simp add: eval_rewrite startsWith_def)
  note t = manifests_never_cached [of "''https://cdn.example/index.m3u8''" upstream_manifest 0
      one_segment
      "\<lparr>status = 200, statusText = ''OK'',
          content_type = Some ''application/vnd.apple.mpegurl'',
          body = ''#EXTM3U\<newline>https://cdn.example/a.ts\<newline>#EXT-X-ENDLIST''\<rparr>"
      "''https://stormyclouds42.xyz/file2/index.m3u8''" parseURL
      "''https://embed.su/api/proxy/viper/stormyclouds42.xyz/file2/index.m3u8''"
      "''https://cdn.example/a.ts''" "steady upstream_segment" None
      "[(0, ProxyStream ''https://cdn.example/index.m3u8''),
        (1, ProxyStream ''https://cdn.example/a.ts'')]"]
  from t h1 have a: "store (proxy_stream upstream_manifest 0 one_segment ''https://cdn.example/index.m3u8'') = one_segment"
    by blast
  from t h1 h2 h3 have b: "reply (proxy_stream upstream_manifest 0 one_segment ''https://cdn.example/index.m3u8'')
      = \<lparr>code = 200, header = truthy (Some ''application/vnd.apple.mpegurl''),
         payload = Sent (rewriteM3u8ContentDirect ''#EXTM3U\<newline>https://cdn.example/a.ts\<newline>#EXT-X-ENDLIST'')\<rparr>"
    by simp
  from t h4 have c: "store (viper_proxy parseURL upstream_manifest 0 one_segment
               ''https://stormyclouds42.xyz/file2/index.m3u8'') = one_segment"
    by blast
  from t h4 h5 h2 h3 have d: "reply (viper_proxy parseURL upstream_manifest 0 one_segment
               ''https://stormyclouds42.xyz/file2/index.m3u8'')
      = \<lparr>code = 200, header = truthy (Some ''application/vnd.apple.mpegurl''),
         payload = Sent (rewriteM3u8ContentDirect ''#EXTM3U\<newline>https://cdn.example/a.ts\<newline>#EXT-X-ENDLIST'')\<rparr>"
    by simp
  from t h6 have e: "cacheable ''https://cdn.example/a.ts''
      \<and> \<not> endsWith ''https://cdn.example/a.ts'' ''m3u8''"
    by blast
  show ?thesis
    using h1 h3 h4 h5 h6 a c e by (simp add: b d rw)
qed

section \<open>Context-aware mode\<close>

lemmas eval_context =
  rewriteM3u8Content_def media_line_def dot_plus_def context_replacer_def base_url_def
  line_run_def after_run_def is_line_terminator_def startsWith_def endsWith_def
  parseURL_def Let_def

text \<open>
  C2. The claim that every line beginning with \<open>#\<close> comes out as it went in fails in
  context-aware mode: the lookahead \<open>(?!#)\<close> guards only the \<open>.ts\<close> alternative of the
  pattern, so a comment line that ends in \<open>.m3u8\<close> (or \<open>.jpg\<close>, \<open>.html\<close>) is matched
  and replaced, whatever the original URL is.
\<close>

theorem context_rewrites_comment_line:
  "rewriteM3u8Content parse ''#backup.m3u8'' originalUrl
     = ''/proxy-stream/'' @ base_url parse originalUrl @ ''#backup.m3u8''
   \<and> rewriteM3u8Content parseURL ''#EXTM3U\<newline>#backup.m3u8\<newline>seg1.ts''
         ''https://cdn.example/hls/index.m3u8''
       = ''#EXTM3U\<newline>/proxy-stream/https://cdn.example/hls/#backup.m3u8\<newline>/proxy-stream/https://cdn.example/hls/seg1.ts''"
proof
  show "rewriteM3u8Content parse ''#backup.m3u8'' originalUrl
     = ''/proxy-stream/'' @ base_url parse originalUrl @ ''#backup.m3u8''"
    by (simp add: rewriteM3u8Content_def media_line_def dot_plus_def context_replacer_def
          line_run_def after_run_def is_line_terminator_def startsWith_def endsWith_def)
  show "rewriteM3u8Content parseURL ''#EXTM3U\<newline>#backup.m3u8\<newline>seg1.ts''
         ''https://cdn.example/hls/index.m3u8''
       = ''#EXTM3U\<newline>/proxy-stream/https://cdn.example/hls/#backup.m3u8\<newline>/proxy-stream/https://cdn.example/hls/seg1.ts''"
    by (simp add: eval_context)
qed

text \<open>
  C6. The claim that a line which needs the original URL is left as it is when that URL
  does not parse fails for relative lines: the root-relative line is returned unchanged,
  but the relative line is prefixed with \<open>/proxy-stream/\<close> and an empty base.
\<close>

theorem context_rewrites_relative_line_without_base:
  "parseURL ''not a url'' = Inl ''Invalid URL''
   \<and> rewriteM3u8Content parseURL
         ''seg1.ts\<newline>/hls/seg2.ts\<newline>https://cdn.example/seg3.ts'' ''not a url''
       = ''/proxy-stream/seg1.ts\<newline>/hls/seg2.ts\<newline>/proxy-stream/https://cdn.example/seg3.ts''"
  by (simp add: eval_context)

section \<open>The key of a cache entry\<close>

text \<open>
  C1 (as amended). On both proxy handlers the cache is read and written under the
  client-supplied URL, the route parameter: a request changes no entry under any other
  key; a cacheable URL with a live entry is answered from that entry without a fetch; and
  after a miss and a 2xx answer the body is stored under the client-supplied URL. On the
  pass-through handler that URL is also the one fetched; on the host-rewriting handler the
  URL fetched is the gateway URL built from it.
\<close>

theorem cache_keyed_by_client_url:
  "(k \<noteq> streamUrl \<longrightarrow> map_of (store (proxy_stream fetch now c streamUrl)) k = map_of c k)
   \<and> (k \<noteq> originalUrl \<longrightarrow>
        map_of (store (viper_proxy parse fetch now c originalUrl)) k = map_of c k)
   \<and> (cacheable streamUrl \<and> cache_peek now c streamUrl = Some hit \<longrightarrow>
        proxy_stream fetch now c streamUrl
          = \<lparr>reply = \<lparr>code = 200, header = truthy (contentType hit), payload = Sent (data hit)\<rparr>,
             store = c, fetched = []\<rparr>)
   \<and> (cacheable originalUrl \<and> cache_peek now c originalUrl = Some hit
        \<and> viper_transform parse originalUrl = Inr transformedUrl \<longrightarrow>
        viper_proxy parse fetch now c originalUrl
          = \<lparr>reply = \<lparr>code = 200, header = truthy (contentType hit), payload = Sent (data hit)\<rparr>,
             store = c, fetched = []\<rparr>)
   \<and> (cacheable streamUrl \<and> cache_peek now c streamUrl = None
        \<and> fetch DirectHeaders streamUrl = Fetched r \<and> ok r \<longrightarrow>
        cache_peek now (store (proxy_stream fetch now c streamUrl)) streamUrl
          = Some \<lparr>data = body r, contentType = content_type r\<rparr>
        \<and> fetched (proxy_stream fetch now c streamUrl) = [streamUrl])
   \<and> (cacheable originalUrl \<and> cache_peek now c originalUrl = None
        \<and> viper_transform parse originalUrl = Inr transformedUrl
        \<and> fetch GatewayHeaders transformedUrl = Fetched r \<and> ok r \<longrightarrow>
        cache_peek now (store (viper_proxy parse fetch now c originalUrl)) originalUrl
          = Some \<lparr>data = body r, contentType = content_type r\<rparr>
        \<and> fetched (viper_proxy parse fetch now c originalUrl) = [transformedUrl])"
proof (intro conjI impI)
  assume "k \<noteq> streamUrl"
  then show "map_of (store (proxy_stream fetch now c streamUrl)) k = map_of c k"
    by (simp add: proxy_stream_def store_cached_or_fetch_other)
next
  assume k: "k \<noteq> originalUrl"
  show "map_of (store (viper_proxy parse fetch now c originalUrl)) k = map_of c k"
    using k by (cases "viper_transform parse originalUrl")
      (simp_all add: viper_proxy_def store_cached_or_fetch_other)
next
  assume "cacheable streamUrl \<and> cache_peek now c streamUrl = Some hit"
  then show "proxy_stream fetch now c streamUrl
          = \<lparr>reply = \<lparr>code = 200, header = truthy (contentType hit), payload = Sent (data hit)\<rparr>,
             store = c, fetched = []\<rparr>"
    by (simp add: proxy_stream_given cacheable_nonempty cached_or_fetch_hit)
next
  assume "cacheable originalUrl \<and> cache_peek now c originalUrl = Some hit
        \<and> viper_transform parse originalUrl = Inr transformedUrl"
  then show "viper_proxy parse fetch now c originalUrl
          = \<lparr>reply = \<lparr>code = 200, header = truthy (contentType hit), payload = Sent (data hit)\<rparr>,
             store = c, fetched = []\<rparr>"
    by (simp add: viper_proxy_transformed cacheable_nonempty cached_or_fetch_hit)
next
  assume a: "cacheable streamUrl \<and> cache_peek now c streamUrl = None
        \<and> fetch DirectHeaders streamUrl = Fetched r \<and> ok r"
  then have g: "proxy_stream fetch now c streamUrl
      = cached_or_fetch fetch DirectHeaders now c streamUrl streamUrl"
    by (simp add: proxy_stream_given cacheable_nonempty)
  from a show "cache_peek now (store (proxy_stream fetch now c streamUrl)) streamUrl
          = Some \<lparr>data = body r, contentType = content_type r\<rparr>"
    unfolding g by (simp add: cached_or_fetch_stores(1))
  from a show "fetched (proxy_stream fetch now c streamUrl) = [streamUrl]"
    unfolding g by (simp add: cached_or_fetch_stores(2))
next
  assume a: "cacheable originalUrl \<and> cache_peek now c originalUrl = None
        \<and> viper_transform parse originalUrl = Inr transformedUrl
        \<and> fetch GatewayHeaders transformedUrl = Fetched r \<and> ok r"
  then have g: "viper_proxy parse fetch now c originalUrl
      = cached_or_fetch fetch GatewayHeaders now c originalUrl transformedUrl"
    by (simp add: viper_proxy_transformed cacheable_nonempty)
  from a show "cache_peek now (store (viper_proxy parse fetch now c originalUrl)) originalUrl
          = Some \<lparr>data = body r, contentType = content_type r\<rparr>"
    unfolding g by (simp add: cached_or_fetch_stores(1))
  from a show "fetched (viper_proxy parse fetch now c originalUrl) = [transformedUrl]"
    unfolding g by (simp add: cached_or_fetch_stores(2))
qed

theorem cache_keyed_by_client_url_witness:
  "''https://cdn.example/b.ts'' \<noteq> ''https://cdn.example/a.ts''
   \<and> cacheable ''https://cdn.example/a.ts''
   \<and> cache_peek 0 one_segment ''https://cdn.example/a.ts''
       = Some \<lparr>data = ''DATA'', contentType = Some ''video/mp2t''\<rparr>
   \<and> viper_transform parseURL ''https://cdn.example/a.ts''
       = Inr ''https://embed.su/api/proxy/viper/cdn.example/a.ts''
   \<and> fetched (proxy_stream upstream_404 0 one_segment ''https://cdn.example/a.ts'') = []
   \<and> fetched (viper_proxy parseURL upstream_404 0 one_segment ''https://cdn.example/a.ts'') = []
   \<and> map_of (store (proxy_stream upstream_404 0 one_segment ''https://cdn.example/a.ts''))
        ''https://cdn.example/b.ts'' = map_of one_segment ''https://cdn.example/b.ts''
   \<and> cacheable ''https://stormyclouds42.xyz/file2/seg.ts''
   \<and> cache_peek 0 one_segment ''https://stormyclouds42.xyz/file2/seg.ts'' = None
   \<and> viper_transform parseURL ''https://stormyclouds42.xyz/file2/seg.ts''
       = Inr ''https://embed.su/api/proxy/viper/stormyclouds42.xyz/file2/seg.ts''
   \<and> cache_peek 0 (store (proxy_stream upstream_segment 0 one_segment
                             ''https://stormyclouds42.xyz/file2/seg.ts''))
         ''https://stormyclouds42.xyz/file2/seg.ts''
       = Some \<lparr>data = ''DATA'', contentType = Some ''video/mp2t''\<rparr>
   \<and> cache_peek 0 (store (viper_proxy parseURL upstream_segment 0 one_segment
                             ''https://stormyclouds42.xyz/file2/seg.ts''))
         ''https://stormyclouds42.xyz/file2/seg.ts''
       = Some \<lparr>data = ''DATA'', contentType = Some ''video/mp2t''\<rparr>
   \<and> fetched (viper_proxy parseURL upstream_segment 0 one_segment
                ''https://stormyclouds42.xyz/file2/seg.ts'')
       = [''https://embed.su/api/proxy/viper/stormyclouds42.xyz/file2/seg.ts'']"
proof -
  have h1: "''https://cdn.example/b.ts'' \<noteq> ''https://cdn.example/a.ts''"
    by simp
  have h2: "cacheable ''https://cdn.example/a.ts''"
    by (simp add: cacheable_def endsWith_def)
  have h3: "cache_peek 0 one_segment ''https://cdn.example/a.ts''
       = Some \<lparr>data = ''DATA'', contentType = Some ''video/mp2t''\<rparr>"
    by (simp add: cache_peek_def cache_get_def one_segment_def expired_def)
  have h4: "viper_transform parseURL ''https://cdn.example/a.ts''
       = Inr ''https://embed.su/api/proxy/viper/cdn.example/a.ts''"
    by (simp add: viper_transform_def parseURL_def Let_def startsWith_def)
  have h5: "cacheable ''https://stormyclouds42.xyz/file2/seg.ts''"
    by (simp add: cacheable_def endsWith_def)
  have h6: "cache_peek 0 one_segment ''https://stormyclouds42.xyz/file2/seg.ts'' = None"
    by (simp add: cache_peek_def cache_get_def one_segment_def)
  have h7: "viper_transform parseURL ''https://stormyclouds42.xyz/file2/seg.ts''
       = Inr ''https://embed.su/api/proxy/viper/stormyclouds42.xyz/file2/seg.ts''"
    by (simp add: viper_transform_def parseURL_def Let_def startsWith_def)
  have h8: "upstream_segment hs u = Fetched \<lparr>status = 200, statusText = ''OK'',
      content_type = Some ''video/mp2t'', body = ''DATA''\<rparr>" for hs u
    by (simp add: upstream_segment_def)
  have h9: "ok \<lparr>status = 200, statusText = ''OK'', content_type = Some ''video/mp2t'', body = ''DATA''\<rparr>"
    by (simp add: ok_def)
  note hit = cache_keyed_by_client_url [of "''https://cdn.example/b.ts''" "''https://cdn.example/a.ts''"
      upstream_404 0 one_segment "''https://cdn.example/a.ts''" parseURL
      "\<lparr>data = ''DATA'', contentType = Some ''video/mp2t''\<rparr>"
      "''https://embed.su/api/proxy/viper/cdn.example/a.ts''"]
  note miss = cache_keyed_by_client_url [of _ "''https://stormyclouds42.xyz/file2/seg.ts''"
      upstream_segment 0 one_segment "''https://stormyclouds42.xyz/file2/seg.ts''" parseURL _
      "''https://embed.su/api/proxy/viper/stormyclouds42.xyz/file2/seg.ts''"
      "\<lparr>status = 200, statusText = ''OK'', content_type = Some ''video/mp2t'', body = ''DATA''\<rparr>"]
  from hit h2 h3 have a: "proxy_stream upstream_404 0 one_segment ''https://cdn.example/a.ts''
      = \<lparr>reply = \<lparr>code = 200, header = truthy (Some ''video/mp2t''), payload = Sent ''DATA''\<rparr>,
         store = one_segment, fetched = []\<rparr>"
    by simp
  from hit h2 h3 h4 have b: "viper_proxy parseURL upstream_404 0 one_segment ''https://cdn.example/a.ts''
      = \<lparr>reply = \<lparr>code = 200, header = truthy (Some ''video/mp2t''), payload = Sent ''DATA''\<rparr>,
         store = one_segment, fetched = []\<rparr>"
    by simp
  from hit h1 have c: "map_of (store (proxy_stream upstream_404 0 one_segment ''https://cdn.example/a.ts''))
        ''https://cdn.example/b.ts'' = map_of one_segment ''https://cdn.example/b.ts''"
    by blast
  from miss h5 h6 h8 h9 have d: "cache_peek 0 (store (proxy_stream upstream_segment 0 one_segment
                             ''https://stormyclouds42.xyz/file2/seg.ts''))
         ''https://stormyclouds42.xyz/file2/seg.ts''
       = Some \<lparr>data = ''DATA'', contentType = Some ''video/mp2t''\<rparr>"
    by simp
  from miss h5 h6 h7 h8 h9 have e: "cache_peek 0 (store (viper_proxy parseURL upstream_segment 0 one_segment
                             ''https://stormyclouds42.xyz/file2/seg.ts''))
         ''https://stormyclouds42.xyz/file2/seg.ts''
       = Some \<lparr>data = ''DATA'', contentType = Some ''video/mp2t''\<rparr>
     \<and> fetched (viper_proxy parseURL upstream_segment 0 one_segment
                ''https://stormyclouds42.xyz/file2/seg.ts'')
       = [''https://embed.su/api/proxy/viper/stormyclouds42.xyz/file2/seg.ts'']"
    by simp
  show ?thesis
    using h1 h2 h3 h4 h5 h6 h7 c d e by (simp add: a b)
qed

text \<open>
  C1 as stated fails on the host-rewriting handler: the entry is stored under the
  client-supplied URL, which is not the URL that was fetched, and two client-supplied
  URLs with the same fetch target get two entries.
\<close>

theorem viper_key_is_client_url:
  "viper_proxy parseURL upstream_segment 0 [] ''https://stormyclouds42.xyz/file2/seg.ts''
     = \<lparr>reply = \<lparr>code = 200, header = Some ''video/mp2t'', payload = Sent ''DATA''\<rparr>,
        store = [(''https://stormyclouds42.xyz/file2/seg.ts'',
                  \<lparr>data = ''DATA'', contentType = Some ''video/mp2t''\<rparr>, 600000)],
        fetched = [''https://embed.su/api/proxy/viper/stormyclouds42.xyz/file2/seg.ts'']\<rparr>
   \<and> cache_keys (store (viper_proxy parseURL upstream_segment 0 []
                             ''https://stormyclouds42.xyz/file2/seg.ts''))
       \<noteq> fetched (viper_proxy parseURL upstream_segment 0 []
                     ''https://stormyclouds42.xyz/file2/seg.ts'')
   \<and> viper_transform parseURL ''https://stormyclouds42.xyz/file2/seg.ts''
       = viper_transform parseURL ''https://stormyclouds42.xyz:8443/file2/seg.ts''
   \<and> cache_keys (run parseURL (steady upstream_segment) None
                    [(0, ViperProxy ''https://stormyclouds42.xyz/file2/seg.ts''),
                     (1, ViperProxy ''https://stormyclouds42.xyz:8443/file2/seg.ts'')])
       = [''https://stormyclouds42.xyz/file2/seg.ts'',
          ''https://stormyclouds42.xyz:8443/file2/seg.ts'']"
  by (simp add: eval_handlers)

end
